theory Spec2Isabelle
  imports Complex_Main "HOL-Library.Multiset"
begin

section \<open>JavaScript numbers\<close>

text \<open>
  The program computes with JavaScript numbers. A finite number is modelled by the real
  it denotes (\<open>Num\<close>); the sign of zero is not modelled. The operations of this
  section are exact; the rounding of double precision is the function \<open>to_double\<close>
  of the section on double precision, where the cost of one turn is computed with
  every operation rounded. The three special values are kept, because the program can
  produce them: a missing price field is \<open>undefined\<close> and turns a product into
  \<open>NaN\<close>, and \<open>0 / 0\<close> is \<open>NaN\<close>.
\<close>

datatype number = Num real | NaN | Infinity | NegInfinity

text \<open>\<open>a + b\<close>\<close>

fun js_add :: "number \<Rightarrow> number \<Rightarrow> number" where
  "js_add (Num a) (Num b) = Num (a + b)"
| "js_add NaN _ = NaN"
| "js_add _ NaN = NaN"
| "js_add Infinity NegInfinity = NaN"
| "js_add NegInfinity Infinity = NaN"
| "js_add Infinity _ = Infinity"
| "js_add _ Infinity = Infinity"
| "js_add NegInfinity _ = NegInfinity"
| "js_add _ NegInfinity = NegInfinity"

text \<open>\<open>-a\<close>\<close>

fun js_neg :: "number \<Rightarrow> number" where
  "js_neg (Num a) = Num (- a)"
| "js_neg NaN = NaN"
| "js_neg Infinity = NegInfinity"
| "js_neg NegInfinity = Infinity"

text \<open>\<open>a - b\<close>\<close>

definition js_sub :: "number \<Rightarrow> number \<Rightarrow> number" where
  "js_sub a b = js_add a (js_neg b)"

text \<open>The infinity with the sign of a non-zero real.\<close>

definition signed_infinity :: "real \<Rightarrow> number" where
  "signed_infinity s = (if 0 < s then Infinity else NegInfinity)"

text \<open>\<open>a * b\<close>\<close>

fun js_mul :: "number \<Rightarrow> number \<Rightarrow> number" where
  "js_mul (Num a) (Num b) = Num (a * b)"
| "js_mul NaN _ = NaN"
| "js_mul _ NaN = NaN"
| "js_mul (Num a) Infinity = (if a = 0 then NaN else signed_infinity a)"
| "js_mul (Num a) NegInfinity = (if a = 0 then NaN else signed_infinity (- a))"
| "js_mul Infinity (Num b) = (if b = 0 then NaN else signed_infinity b)"
| "js_mul NegInfinity (Num b) = (if b = 0 then NaN else signed_infinity (- b))"
| "js_mul Infinity Infinity = Infinity"
| "js_mul NegInfinity NegInfinity = Infinity"
| "js_mul Infinity NegInfinity = NegInfinity"
| "js_mul NegInfinity Infinity = NegInfinity"

text \<open>\<open>a / b\<close>; a zero divisor is the positive zero everywhere in the program.\<close>

fun js_div :: "number \<Rightarrow> number \<Rightarrow> number" where
  "js_div (Num a) (Num b) =
     (if b \<noteq> 0 then Num (a / b) else if a = 0 then NaN else signed_infinity a)"
| "js_div NaN _ = NaN"
| "js_div _ NaN = NaN"
| "js_div (Num a) Infinity = Num 0"
| "js_div (Num a) NegInfinity = Num 0"
| "js_div Infinity (Num b) = (if 0 \<le> b then Infinity else NegInfinity)"
| "js_div NegInfinity (Num b) = (if 0 \<le> b then NegInfinity else Infinity)"
| "js_div Infinity Infinity = NaN"
| "js_div Infinity NegInfinity = NaN"
| "js_div NegInfinity Infinity = NaN"
| "js_div NegInfinity NegInfinity = NaN"

text \<open>\<open>a < b\<close> and \<open>a > b\<close>: false as soon as one side is \<open>NaN\<close>.\<close>

fun js_lt :: "number \<Rightarrow> number \<Rightarrow> bool" where
  "js_lt (Num a) (Num b) = (a < b)"
| "js_lt NaN _ = False"
| "js_lt _ NaN = False"
| "js_lt _ NegInfinity = False"
| "js_lt Infinity _ = False"
| "js_lt NegInfinity _ = True"
| "js_lt _ Infinity = True"

definition js_gt :: "number \<Rightarrow> number \<Rightarrow> bool" where
  "js_gt a b = js_lt b a"

text \<open>Truthiness of a number: every number but zero and \<open>NaN\<close>.\<close>

fun truthy_number :: "number \<Rightarrow> bool" where
  "truthy_number (Num a) = (a \<noteq> 0)"
| "truthy_number NaN = False"
| "truthy_number Infinity = True"
| "truthy_number NegInfinity = True"

section \<open>Pricing table\<close>

record pricing =
  input :: real
  "output" :: real
  cache_write :: real
  cache_read :: real

text \<open>
  The entries of the table repeat four sets of rates (per million tokens): those of
  the Opus models, of the Sonnet models and the default, of Haiku 3.5 and of Haiku 3.
\<close>

definition opus_rates :: pricing where
  "opus_rates = \<lparr>input = 15.0, output = 75.0, cache_write = 18.75, cache_read = 1.5\<rparr>"

definition sonnet_rates :: pricing where
  "sonnet_rates = \<lparr>input = 3.0, output = 15.0, cache_write = 3.75, cache_read = 0.3\<rparr>"

definition haiku35_rates :: pricing where
  "haiku35_rates = \<lparr>input = 0.8, output = 4.0, cache_write = 1.0, cache_read = 0.08\<rparr>"

definition haiku3_rates :: pricing where
  "haiku3_rates = \<lparr>input = 0.25, output = 1.25, cache_write = 0.3, cache_read = 0.03\<rparr>"

text \<open>The own properties of the object literal \<open>CLAUDE_PRICING\<close>, in source order.\<close>

definition CLAUDE_PRICING :: "(string \<times> pricing) list" where
  "CLAUDE_PRICING =
    [(''claude-opus-4-20250514'', opus_rates),
     (''claude-sonnet-4-20250514'', sonnet_rates),
     (''claude-3-7-sonnet-20250219'', sonnet_rates),
     (''claude-3-7-sonnet-latest'', sonnet_rates),
     (''claude-3-5-sonnet-20241022'', sonnet_rates),
     (''claude-3-5-sonnet-20240620'', sonnet_rates),
     (''claude-3-5-sonnet-latest'', sonnet_rates),
     (''claude-3-5-haiku-20241022'', haiku35_rates),
     (''claude-3-5-haiku-latest'', haiku35_rates),
     (''claude-3-opus-20240229'', opus_rates),
     (''claude-3-opus-latest'', opus_rates),
     (''claude-3-sonnet-20240229'', sonnet_rates),
     (''claude-3-haiku-20240307'', haiku3_rates),
     (''default'', sonnet_rates)]"

text \<open>
  \<open>CLAUDE_PRICING\<close> is an ordinary object, so \<open>CLAUDE_PRICING[model]\<close> also finds
  what the object inherits from \<open>Object.prototype\<close>. These are the property names
  of \<open>Object.prototype\<close>; each of them holds a function (or, for \<open>__proto__\<close>,
  the prototype object): a truthy value without price fields.
\<close>

definition Object_prototype_names :: "string list" where
  "Object_prototype_names =
    [''constructor'', ''__defineGetter__'', ''__defineSetter__'', ''hasOwnProperty'',
     ''__lookupGetter__'', ''__lookupSetter__'', ''isPrototypeOf'', ''propertyIsEnumerable'',
     ''toString'', ''valueOf'', ''__proto__'', ''toLocaleString'']"

text \<open>What a property read of \<open>CLAUDE_PRICING\<close> yields, when it is not \<open>undefined\<close>.\<close>

datatype pricing_value = Entry pricing | Inherited

text \<open>\<open>CLAUDE_PRICING[key]\<close>; \<open>None\<close> is \<open>undefined\<close>.\<close>

definition CLAUDE_PRICING_get :: "string \<Rightarrow> pricing_value option" where
  "CLAUDE_PRICING_get key =
     (case map_of CLAUDE_PRICING key of
        Some p \<Rightarrow> Some (Entry p)
      | None \<Rightarrow> if key \<in> set Object_prototype_names then Some Inherited else None)"

text \<open>
  \<open>pricing.input\<close> and its siblings, as the numbers the multiplication sees:
  \<open>undefined\<close> becomes \<open>NaN\<close>.
\<close>

fun price :: "(pricing \<Rightarrow> real) \<Rightarrow> pricing_value \<Rightarrow> number" where
  "price field (Entry p) = Num (field p)"
| "price field Inherited = NaN"

section \<open>Cost of one turn\<close>

text \<open>
  The \<open>usage\<close> object of an assistant record. A field is \<open>None\<close> when the record
  does not carry it.
\<close>

record usage =
  input_tokens :: "nat option"
  output_tokens :: "nat option"
  cache_creation_input_tokens :: "nat option"
  cache_read_input_tokens :: "nat option"

text \<open>\<open>usage.field || 0\<close>\<close>

definition or_zero :: "nat option \<Rightarrow> number" where
  "or_zero v = (case v of None \<Rightarrow> Num 0 | Some n \<Rightarrow> Num (real n))"

text \<open>
  \<open>CLAUDE_PRICING[model] || CLAUDE_PRICING['default']\<close>. Every value the first read
  can yield is truthy, so the fallback is taken exactly when the read is \<open>undefined\<close>.
  The table has a \<open>default\<close> entry (lemma \<open>default_entry\<close> below), so the fallback
  read yields it.
\<close>

definition pricing_or_default :: "string \<Rightarrow> pricing_value" where
  "pricing_or_default model_arg =
     (case CLAUDE_PRICING_get model_arg of
        Some v \<Rightarrow> v
      | None \<Rightarrow> (case CLAUDE_PRICING_get ''default'' of Some d \<Rightarrow> d | None \<Rightarrow> Inherited))"

text \<open>\<open>calculateCost(usage, model)\<close>; a missing \<open>usage\<close> is \<open>None\<close>.\<close>

definition calculateCost :: "usage option \<Rightarrow> string \<Rightarrow> number" where
  "calculateCost usage_arg model_arg =
     (case usage_arg of
        None \<Rightarrow> Num 0
      | Some u \<Rightarrow>
          let pricing = pricing_or_default model_arg;
              inputCost =
                js_div (js_mul (or_zero (input_tokens u)) (price input pricing)) (Num 1000000);
              outputCost =
                js_div (js_mul (or_zero (output_tokens u)) (price output pricing)) (Num 1000000);
              cacheWriteCost =
                js_div (js_mul (or_zero (cache_creation_input_tokens u)) (price cache_write pricing))
                  (Num 1000000);
              cacheReadCost =
                js_div (js_mul (or_zero (cache_read_input_tokens u)) (price cache_read pricing))
                  (Num 1000000)
          in js_add (js_add (js_add inputCost outputCost) cacheWriteCost) cacheReadCost)"

section \<open>Double precision\<close>

text \<open>
  The arithmetic of \<open>js_add\<close>, \<open>js_mul\<close> and \<open>js_div\<close> above is exact. IEEE 754
  double precision computes the exact result of each operation and rounds it to the
  nearest number with a significand of 53 bits, a tie to the even one.
\<close>

text \<open>
  Rounding a non-negative real to an integer, to nearest and a tie to the even
  neighbour.
\<close>

definition round_even :: "real \<Rightarrow> real" where
  "round_even m =
     (let f = \<lfloor>m\<rfloor>; r = m - of_int f
      in if r < 1 / 2 then of_int f
         else if 1 / 2 < r then of_int f + 1
         else if even f then of_int f else of_int f + 1)"

text \<open>
  The significand and the exponent of a positive real \<open>x = m * 2^e\<close>: the
  significand is halved while it is \<open>2^53\<close> or more, then doubled while it is below
  \<open>2^52\<close> and the exponent is above that of the subnormal numbers, \<open>-1074\<close>.
\<close>

function scale_down :: "real \<Rightarrow> int \<Rightarrow> real \<times> int" where
  "scale_down x e = (if 2 ^ 53 \<le> x then scale_down (x / 2) (e + 1) else (x, e))"
  by pat_completeness auto
termination
proof (relation "measure (\<lambda>(x, e). nat \<lfloor>x\<rfloor>)")
  show "wf (measure (\<lambda>(x, e). nat \<lfloor>x\<rfloor>))" by simp
next
  fix x :: real and e :: int
  assume "2 ^ 53 \<le> x"
  then have "2 \<le> x" by simp
  then have "\<lfloor>x / 2\<rfloor> < \<lfloor>x\<rfloor>" by linarith
  moreover have "0 < \<lfloor>x\<rfloor>" using \<open>2 \<le> x\<close> by linarith
  ultimately show "((x / 2, e + 1), (x, e)) \<in> measure (\<lambda>(x, e). nat \<lfloor>x\<rfloor>)"
    by simp
qed

function scale_up :: "real \<Rightarrow> int \<Rightarrow> real \<times> int" where
  "scale_up x e = (if x < 2 ^ 52 \<and> - 1074 < e then scale_up (2 * x) (e - 1) else (x, e))"
  by pat_completeness auto
termination
  by (relation "measure (\<lambda>(x, e). nat (e + 1074))") auto

declare scale_down.simps [simp del] scale_up.simps [simp del]

text \<open>\<open>2^e\<close> for an integer exponent.\<close>

definition pow2 :: "int \<Rightarrow> real" where
  "pow2 e = (if 0 \<le> e then 2 ^ nat e else 1 / 2 ^ nat (- e))"

text \<open>
  The double nearest to a positive real: the significand is rounded to 53 bits
  (to the multiple of \<open>2^-1074\<close> for a subnormal result), and a result of
  \<open>2^1024\<close> or more is \<open>Infinity\<close>.
\<close>

definition to_double_pos :: "real \<Rightarrow> number" where
  "to_double_pos x =
     (case scale_down x 0 of (m1, e1) \<Rightarrow>
        (case scale_up m1 e1 of (m, e) \<Rightarrow>
           let r = round_even m * pow2 e
           in if 2 ^ 1024 \<le> r then Infinity else Num r))"

text \<open>
  The double that a numeric literal, a number of a JSON text or the exact result of an
  arithmetic operation becomes.
\<close>

definition to_double :: "real \<Rightarrow> number" where
  "to_double x = (if x = 0 then Num 0 else if 0 < x then to_double_pos x else js_neg (to_double_pos (- x)))"

text \<open>The result of an arithmetic operation, rounded.\<close>

fun rounded :: "number \<Rightarrow> number" where
  "rounded (Num r) = to_double r"
| "rounded NaN = NaN"
| "rounded Infinity = Infinity"
| "rounded NegInfinity = NegInfinity"

text \<open>\<open>usage.field || 0\<close>, the field being the double that \<open>JSON.parse\<close> read.\<close>

definition tokens_double :: "nat option \<Rightarrow> number" where
  "tokens_double v = (case v of None \<Rightarrow> to_double 0 | Some n \<Rightarrow> to_double (real n))"

text \<open>\<open>pricing.input\<close> and its siblings: the doubles of the literals of the table.\<close>

fun price_double :: "(pricing \<Rightarrow> real) \<Rightarrow> pricing_value \<Rightarrow> number" where
  "price_double field (Entry p) = to_double (field p)"
| "price_double field Inherited = NaN"

text \<open>
  \<open>calculateCost(usage, model)\<close> once more, in double precision: the same
  statements, every literal and the result of every operation rounded.
\<close>

definition calculateCost_double :: "usage option \<Rightarrow> string \<Rightarrow> number" where
  "calculateCost_double usage_arg model_arg =
     (case usage_arg of
        None \<Rightarrow> to_double 0
      | Some u \<Rightarrow>
          let pricing = pricing_or_default model_arg;
              inputCost =
                rounded (js_div
                  (rounded (js_mul (tokens_double (input_tokens u)) (price_double input pricing)))
                  (to_double 1000000));
              outputCost =
                rounded (js_div
                  (rounded (js_mul (tokens_double (output_tokens u)) (price_double output pricing)))
                  (to_double 1000000));
              cacheWriteCost =
                rounded (js_div
                  (rounded (js_mul (tokens_double (cache_creation_input_tokens u))
                     (price_double cache_write pricing)))
                  (to_double 1000000));
              cacheReadCost =
                rounded (js_div
                  (rounded (js_mul (tokens_double (cache_read_input_tokens u))
                     (price_double cache_read pricing)))
                  (to_double 1000000))
          in rounded (js_add (rounded (js_add (rounded (js_add inputCost outputCost)) cacheWriteCost))
               cacheReadCost))"

section \<open>Log records\<close>

text \<open>
  A \<open>Date\<close> object: its time value in milliseconds since the epoch, or the invalid
  date (time value \<open>NaN\<close>) that \<open>new Date\<close> builds from a string it cannot read.
\<close>

datatype date = Date int | InvalidDate

text \<open>A date as a number (\<open>valueOf\<close>), as comparison and subtraction see it.\<close>

fun date_value :: "date \<Rightarrow> number" where
  "date_value (Date t) = Num (real_of_int t)"
| "date_value InvalidDate = NaN"

text \<open>
  One parsed line of a log. Fields carry the types of the log format (strings, a
  number for \<open>costUSD\<close>, token counts that are natural numbers); a record with a
  field of another type is outside this model. \<open>None\<close> is a field the record does
  not have (or has as \<open>null\<close>). \<open>timestamp\<close> holds the \<open>Date\<close> that
  \<open>new Date(message.timestamp)\<close> builds from a non-empty timestamp string;
  \<open>None\<close> there is a missing or empty (falsy) timestamp. A character of a string
  stands for one UTF-16 code unit.
\<close>

record metadata =
  workingDirectory :: "string option"
  cwd :: "string option"
  thread_summary :: "string option"
  metadata_summary :: "string option"

record api_message =
  usage :: "usage option"
  model :: "string option"

record log_message =
  type :: "string option"
  summary :: "string option"
  metadata :: "metadata option"
  "text" :: "string option"
  costUSD :: "real option"
  message :: "api_message option"
  timestamp :: "date option"

text \<open>
  A line of the file: \<open>Unparseable\<close> when \<open>JSON.parse(line)\<close> throws, which the
  \<open>catch\<close> of the loop body swallows (as it does the \<open>TypeError\<close> of the first
  property read when the line is \<open>null\<close>). A line that parses to a number, a string,
  a boolean or an array is a record without fields.
\<close>

datatype line = Unparseable | Parsed log_message

section \<open>Session parser\<close>

text \<open>The local variables of \<open>parseJSONLFile\<close>, threaded through the loop.\<close>

record parser_vars =
  totalCost_v :: number
  messageCount_v :: nat
  conversationName_v :: string
  conversationTitle_v :: string
  startTime_v :: "date option"
  endTime_v :: "date option"
  summary_v :: string
  firstUserMessage_v :: string

definition initial_vars :: parser_vars where
  "initial_vars =
     \<lparr>totalCost_v = Num 0, messageCount_v = 0, conversationName_v = [],
      conversationTitle_v = [], startTime_v = None, endTime_v = None, summary_v = [],
      firstUserMessage_v = []\<rparr>"

text \<open>Truthiness of a string field: present and not empty.\<close>

fun truthy :: "string option \<Rightarrow> bool" where
  "truthy None = False"
| "truthy (Some s) = (s \<noteq> [])"

text \<open>\<open>a || b\<close> for a string field \<open>a\<close>.\<close>

fun or_else :: "string option \<Rightarrow> string \<Rightarrow> string" where
  "or_else None b = b"
| "or_else (Some s) b = (if s \<noteq> [] then s else b)"

text \<open>The block \<open>if (message.type === 'summary') {...}\<close>.\<close>

definition extract_metadata :: "log_message \<Rightarrow> parser_vars \<Rightarrow> parser_vars" where
  "extract_metadata msg v =
     (if type msg = Some ''summary'' then
        let v1 = (if truthy (summary msg)
                  then v\<lparr>summary_v := or_else (summary msg) []\<rparr> else v)
        in (case metadata msg of
              None \<Rightarrow> v1
            | Some md \<Rightarrow>
                let v2 = v1\<lparr>conversationName_v :=
                              or_else (workingDirectory md) (or_else (cwd md) ''Unknown'')\<rparr>;
                    v3 = (if truthy (thread_summary md)
                          then v2\<lparr>conversationTitle_v := or_else (thread_summary md) []\<rparr>
                          else v2)
                in (if truthy (metadata_summary md)
                    then v3\<lparr>conversationTitle_v := or_else (metadata_summary md) []\<rparr>
                    else v3))
      else v)"

text \<open>
  \<open>if (message.type === 'user' && !firstUserMessage && message.text)
     firstUserMessage = message.text.substring(0, 100)\<close>
\<close>

definition capture_first_user_message :: "log_message \<Rightarrow> parser_vars \<Rightarrow> parser_vars" where
  "capture_first_user_message msg v =
     (if type msg = Some ''user'' \<and> firstUserMessage_v v = [] \<and> truthy (text msg)
      then v\<lparr>firstUserMessage_v := take 100 (or_else (text msg) [])\<rparr>
      else v)"

text \<open>
  The cost block of the script that reads \<open>costUSD\<close> (the first
  \<open>parseJSONLFile\<close>): \<open>if (message.type === 'assistant' && message.costUSD)\<close>.
\<close>

definition extract_cost_costUSD :: "log_message \<Rightarrow> parser_vars \<Rightarrow> parser_vars" where
  "extract_cost_costUSD msg v =
     (if type msg = Some ''assistant'' then
        (case costUSD msg of
           None \<Rightarrow> v
         | Some c \<Rightarrow>
             if c \<noteq> 0
             then v\<lparr>totalCost_v := js_add (totalCost_v v) (Num c),
                    messageCount_v := messageCount_v v + 1\<rparr>
             else v)
      else v)"

text \<open>
  The cost block of the script that prices token usage (the second
  \<open>parseJSONLFile\<close>): \<open>if (message.type === 'assistant' && message.message)\<close>,
  then \<open>if (usage && model)\<close>.
\<close>

definition extract_cost_usage :: "log_message \<Rightarrow> parser_vars \<Rightarrow> parser_vars" where
  "extract_cost_usage msg v =
     (if type msg = Some ''assistant'' then
        (case message msg of
           None \<Rightarrow> v
         | Some m \<Rightarrow>
             (case usage m of
                None \<Rightarrow> v
              | Some u \<Rightarrow>
                  if truthy (model m)
                  then let cost = calculateCost (Some u) (or_else (model m) [])
                       in v\<lparr>totalCost_v := js_add (totalCost_v v) cost,
                             messageCount_v := messageCount_v v + 1\<rparr>
                  else v))
      else v)"

text \<open>
  \<open>!startTime || timestamp < startTime\<close> and \<open>!endTime || timestamp > endTime\<close>.
  A \<open>Date\<close> object is truthy, also an invalid one.
\<close>

fun earlier_than :: "date \<Rightarrow> date option \<Rightarrow> bool" where
  "earlier_than ts None = True"
| "earlier_than ts (Some s) = js_lt (date_value ts) (date_value s)"

fun later_than :: "date \<Rightarrow> date option \<Rightarrow> bool" where
  "later_than ts None = True"
| "later_than ts (Some e) = js_gt (date_value ts) (date_value e)"

text \<open>The block \<open>if (message.timestamp) {...}\<close>.\<close>

definition track_time_range :: "log_message \<Rightarrow> parser_vars \<Rightarrow> parser_vars" where
  "track_time_range msg v =
     (case timestamp msg of
        None \<Rightarrow> v
      | Some ts \<Rightarrow>
          let v1 = (if earlier_than ts (startTime_v v) then v\<lparr>startTime_v := Some ts\<rparr> else v)
          in (if later_than ts (endTime_v v1) then v1\<lparr>endTime_v := Some ts\<rparr> else v1))"

text \<open>One iteration of the loop, \<open>try { ... } catch (e) { }\<close>, in each script.\<close>

fun process_line_costUSD :: "parser_vars \<Rightarrow> line \<Rightarrow> parser_vars" where
  "process_line_costUSD v Unparseable = v"
| "process_line_costUSD v (Parsed msg) =
     track_time_range msg
       (extract_cost_costUSD msg (capture_first_user_message msg (extract_metadata msg v)))"

fun process_line_usage :: "parser_vars \<Rightarrow> line \<Rightarrow> parser_vars" where
  "process_line_usage v Unparseable = v"
| "process_line_usage v (Parsed msg) =
     track_time_range msg
       (extract_cost_usage msg (capture_first_user_message msg (extract_metadata msg v)))"

text \<open>The summary object that \<open>parseJSONLFile\<close> returns.\<close>

record conversation =
  conversationId :: string
  conversationName :: string
  conversationTitle :: string
  totalCost :: number
  messageCount :: nat
  startTime :: "date option"
  endTime :: "date option"
  duration :: number
  projectName :: "string option"

text \<open>
  \<open>path.basename(filePath, '.jsonl')\<close> for the path of a directory entry
  \<open>fileName\<close>: the entry without the extension, unless the entry is the extension.
\<close>

definition basename_jsonl :: "string \<Rightarrow> string" where
  "basename_jsonl fileName =
     (if 6 < length fileName \<and> drop (length fileName - 6) fileName = ''.jsonl''
      then take (length fileName - 6) fileName else fileName)"

text \<open>\<open>.replace(/\n/g, ' ')\<close>\<close>

definition replace_newlines :: "string \<Rightarrow> string" where
  "replace_newlines s = map (\<lambda>c. if c = CHR 0x0A then CHR '' '' else c) s"

text \<open>
  \<open>if (!conversationTitle) conversationTitle = summary || firstUserMessage ||
  'Untitled conversation'\<close>
\<close>

definition best_title :: "parser_vars \<Rightarrow> string" where
  "best_title v =
     (if conversationTitle_v v = []
      then or_else (Some (summary_v v))
             (or_else (Some (firstUserMessage_v v)) ''Untitled conversation'')
      else conversationTitle_v v)"

text \<open>The \<open>return\<close> statement. \<open>projectName\<close> is not set yet.\<close>

definition summary_of :: "string \<Rightarrow> parser_vars \<Rightarrow> conversation" where
  "summary_of fileName v =
     \<lparr>conversationId = basename_jsonl fileName,
      conversationName = conversationName_v v,
      conversationTitle = take 100 (replace_newlines (best_title v)),
      totalCost = totalCost_v v,
      messageCount = messageCount_v v,
      startTime = startTime_v v,
      endTime = endTime_v v,
      duration =
        (case (endTime_v v, startTime_v v) of
           (Some e, Some s) \<Rightarrow>
             js_div (js_div (js_sub (date_value e) (date_value s)) (Num 1000)) (Num 60)
         | _ \<Rightarrow> Num 0),
      projectName = None\<rparr>"

text \<open>The two \<open>parseJSONLFile\<close> functions, on the lines of a file that could be read.\<close>

definition parseJSONLFile_costUSD :: "string \<Rightarrow> line list \<Rightarrow> conversation" where
  "parseJSONLFile_costUSD fileName lines =
     summary_of fileName (foldl process_line_costUSD initial_vars lines)"

definition parseJSONLFile_usage :: "string \<Rightarrow> line list \<Rightarrow> conversation" where
  "parseJSONLFile_usage fileName lines =
     summary_of fileName (foldl process_line_usage initial_vars lines)"

section \<open>Corpus scanner\<close>

text \<open>
  What the scanner finds below the projects directory: for each project directory its
  \<open>.jsonl\<close> entries, each with the lines of the file, or \<open>None\<close> for a file
  whose read fails (the rejected \<open>parseJSONLFile\<close> is caught and the file left out).
  \<open>None\<close> for the whole corpus is a missing projects directory.
\<close>

type_synonym project_files = "string \<times> (string \<times> line list option) list"

text \<open>
  The body of \<open>for (const jsonlFile of jsonlFiles)\<close> in the first script: every
  parsed conversation is pushed.
\<close>

fun scan_file_costUSD :: "string \<Rightarrow> string \<times> line list option \<Rightarrow> conversation list" where
  "scan_file_costUSD projectDir (jsonlFile, None) = []"
| "scan_file_costUSD projectDir (jsonlFile, Some lines) =
     [(parseJSONLFile_costUSD jsonlFile lines)\<lparr>projectName := Some projectDir\<rparr>]"

text \<open>
  The same body in the second script:
  \<open>if (conversation.messageCount > 0) conversations.push(conversation)\<close>.
\<close>

fun scan_file_usage :: "string \<Rightarrow> string \<times> line list option \<Rightarrow> conversation list" where
  "scan_file_usage projectDir (jsonlFile, None) = []"
| "scan_file_usage projectDir (jsonlFile, Some lines) =
     (let conversation = (parseJSONLFile_usage jsonlFile lines)\<lparr>projectName := Some projectDir\<rparr>
      in if 0 < messageCount conversation then [conversation] else [])"

definition analyzeAllConversations_costUSD :: "project_files list option \<Rightarrow> conversation list" where
  "analyzeAllConversations_costUSD corpus =
     (case corpus of
        None \<Rightarrow> []
      | Some projectDirs \<Rightarrow>
          concat (map (\<lambda>(projectDir, jsonlFiles).
                         concat (map (scan_file_costUSD projectDir) jsonlFiles)) projectDirs))"

definition analyzeAllConversations_usage :: "project_files list option \<Rightarrow> conversation list" where
  "analyzeAllConversations_usage corpus =
     (case corpus of
        None \<Rightarrow> []
      | Some projectDirs \<Rightarrow>
          concat (map (\<lambda>(projectDir, jsonlFiles).
                         concat (map (scan_file_usage projectDir) jsonlFiles)) projectDirs))"

section \<open>Sorting\<close>

text \<open>
  \<open>Array.prototype.sort\<close> with a comparator: a positive result of \<open>cmp x y\<close> puts
  \<open>x\<close> after \<open>y\<close>, any other result (\<open>NaN\<close> counts as zero) leaves \<open>x\<close> first.
  The sort is stable (ECMAScript 2019, Node 11 and later; the package asks for Node 14),
  so for a consistent comparator its result is the one that stable insertion computes.
\<close>

fun js_insert :: "('a \<Rightarrow> 'a \<Rightarrow> number) \<Rightarrow> 'a \<Rightarrow> 'a list \<Rightarrow> 'a list" where
  "js_insert cmp x [] = [x]"
| "js_insert cmp x (y # ys) =
     (if js_gt (cmp x y) (Num 0) then y # js_insert cmp x ys else x # y # ys)"

definition js_sort :: "('a \<Rightarrow> 'a \<Rightarrow> number) \<Rightarrow> 'a list \<Rightarrow> 'a list" where
  "js_sort cmp xs = foldr (js_insert cmp) xs []"

text \<open>\<open>(a, b) => b.totalCost - a.totalCost\<close>\<close>

definition by_cost_descending :: "conversation \<Rightarrow> conversation \<Rightarrow> number" where
  "by_cost_descending a b = js_sub (totalCost b) (totalCost a)"

section \<open>Aggregator\<close>

text \<open>
  A calendar date \<open>YYYY-MM-DD\<close> is modelled by its day number, the days since
  1970-01-01: \<open>toISOString().split('T')[0]\<close> of a valid date is the UTC date of its
  time value, day \<open>t div 86400000\<close>. For the years 0000 to 9999 the date strings are
  ordered as their day numbers are. \<open>toISOString\<close> throws a \<open>RangeError\<close> on an
  invalid date.
\<close>

datatype error = RangeError

definition msPerDay :: int where
  "msPerDay = 86400000"

fun toISOString_date :: "date \<Rightarrow> error + int" where
  "toISOString_date (Date t) = Inr (t div msPerDay)"
| "toISOString_date InvalidDate = Inl RangeError"

text \<open>\<open>a.localeCompare(b)\<close> on two date strings.\<close>

definition localeCompare :: "int \<Rightarrow> int \<Rightarrow> number" where
  "localeCompare a b = (if a < b then Num (- 1) else if b < a then Num 1 else Num 0)"

text \<open>A value of the object \<open>dailyCosts\<close>.\<close>

record daily_cost =
  date :: int
  totalCost_d :: number
  conversationCount :: nat
  conversations :: "conversation list"

text \<open>
  The object \<open>dailyCosts\<close> is the list of its values in the order the keys were
  created, which is the order \<open>Object.values\<close> lists them in. The three statements
  that add a conversation to the bucket of \<open>dateKey\<close>, after the bucket was created
  when there was none:
\<close>

definition add_conversation :: "conversation \<Rightarrow> daily_cost \<Rightarrow> daily_cost" where
  "add_conversation conv b =
     b\<lparr>totalCost_d := js_add (totalCost_d b) (totalCost conv),
       conversationCount := conversationCount b + 1,
       conversations := conversations b @ [conv]\<rparr>"

fun dailyCosts_add :: "int \<Rightarrow> conversation \<Rightarrow> daily_cost list \<Rightarrow> daily_cost list" where
  "dailyCosts_add dateKey conv [] =
     [add_conversation conv
        \<lparr>date = dateKey, totalCost_d = Num 0, conversationCount = 0, conversations = []\<rparr>]"
| "dailyCosts_add dateKey conv (b # bs) =
     (if date b = dateKey then add_conversation conv b # bs
      else b # dailyCosts_add dateKey conv bs)"

text \<open>\<open>conv.totalCost > 0 && conv.startTime\<close>\<close>

definition cost_bearing_with_start :: "conversation \<Rightarrow> bool" where
  "cost_bearing_with_start conv = (js_gt (totalCost conv) (Num 0) \<and> startTime conv \<noteq> None)"

text \<open>The \<open>forEach\<close> of \<open>aggregateDailyCosts\<close>; the first exception ends it.\<close>

fun aggregate_forEach :: "conversation list \<Rightarrow> daily_cost list \<Rightarrow> error + daily_cost list" where
  "aggregate_forEach [] dailyCosts = Inr dailyCosts"
| "aggregate_forEach (conv # rest) dailyCosts =
     (if js_gt (totalCost conv) (Num 0) then
        (case startTime conv of
           None \<Rightarrow> aggregate_forEach rest dailyCosts
         | Some d \<Rightarrow>
             (case toISOString_date d of
                Inl e \<Rightarrow> Inl e
              | Inr dateKey \<Rightarrow> aggregate_forEach rest (dailyCosts_add dateKey conv dailyCosts)))
      else aggregate_forEach rest dailyCosts)"

definition aggregateDailyCosts :: "conversation list \<Rightarrow> error + daily_cost list" where
  "aggregateDailyCosts convs =
     (case aggregate_forEach convs [] of
        Inl e \<Rightarrow> Inl e
      | Inr dailyCosts \<Rightarrow> Inr (js_sort (\<lambda>a b. localeCompare (date a) (date b)) dailyCosts))"

section \<open>The last 30 days\<close>

text \<open>
  \<open>getDate\<close> and \<open>setDate\<close> work in local time and \<open>toISOString\<close> in UTC. The
  local time zone is the function \<open>LocalTZA\<close> of ECMAScript: the offset of local time
  from UTC in milliseconds, at a UTC time value (\<open>True\<close>) or at a local time value
  (\<open>False\<close>).
\<close>

type_synonym time_zone = "int \<Rightarrow> bool \<Rightarrow> int"

definition LocalTime :: "time_zone \<Rightarrow> int \<Rightarrow> int" where
  "LocalTime tza t = t + tza t True"

definition UTC :: "time_zone \<Rightarrow> int \<Rightarrow> int" where
  "UTC tza t = t - tza t False"

text \<open>
  \<open>date.setDate(date.getDate() - i)\<close> on a copy of \<open>today\<close>: the local calendar day
  moves back by \<open>i\<close> days and the local time of day stays, so the local time value
  drops by \<open>i\<close> days; the new time value is its UTC time.
\<close>

definition setDate_back :: "time_zone \<Rightarrow> int \<Rightarrow> nat \<Rightarrow> int" where
  "setDate_back tza today i = UTC tza (LocalTime tza today - int i * msPerDay)"

text \<open>
  The loop \<open>for (let i = 29; i >= 0; i--)\<close>, entered with \<open>n = 30\<close>: the iterations
  \<open>i = n - 1, ..., 0\<close>. A time value of \<open>new Date()\<close> is valid.
\<close>

fun last_days :: "time_zone \<Rightarrow> int \<Rightarrow> nat \<Rightarrow> int list" where
  "last_days tza today 0 = []"
| "last_days tza today (Suc i) = (setDate_back tza today i div msPerDay) # last_days tza today i"

definition getLast30Days :: "time_zone \<Rightarrow> int \<Rightarrow> int list" where
  "getLast30Days tza today = last_days tza today 30"

section \<open>Report data\<close>

text \<open>\<open>conversations.filter(c => c.totalCost > 0).sort(...)\<close>\<close>

definition conversationsWithCosts :: "conversation list \<Rightarrow> conversation list" where
  "conversationsWithCosts convs =
     js_sort by_cost_descending (filter (\<lambda>c. js_gt (totalCost c) (Num 0)) convs)"

text \<open>An element of \<open>last30DaysData\<close>.\<close>

record day_data =
  day :: int
  cost :: number
  day_conversations :: "conversation list"

text \<open>\<open>dailyCostMap\<close>: the last bucket stored under a date.\<close>

definition dailyCostMap :: "daily_cost list \<Rightarrow> int \<Rightarrow> daily_cost option" where
  "dailyCostMap dailyData = foldl (\<lambda>m d. m(date d \<mapsto> d)) Map.empty dailyData"

text \<open>
  \<open>{date, cost: dailyCostMap[date]?.cost || 0,
     conversations: dailyCostMap[date]?.conversations || []}\<close>
\<close>

definition fill_day :: "(int \<Rightarrow> daily_cost option) \<Rightarrow> int \<Rightarrow> day_data" where
  "fill_day m d =
     (case m d of
        None \<Rightarrow> \<lparr>day = d, cost = Num 0, day_conversations = []\<rparr>
      | Some b \<Rightarrow>
          \<lparr>day = d,
           cost = (if truthy_number (totalCost_d b) then totalCost_d b else Num 0),
           day_conversations = conversations b\<rparr>)"

text \<open>
  The data that \<open>createHTMLReport\<close> computes before it writes the page: the ranking,
  its total, and the series of the last 30 days. The page itself is not modelled.
\<close>

record report_data =
  ranking :: "conversation list"
  ranking_total :: number
  last30DaysData :: "day_data list"

definition createHTMLReport :: "time_zone \<Rightarrow> int \<Rightarrow> conversation list \<Rightarrow> error + report_data" where
  "createHTMLReport tza today convs =
     (let withCosts = conversationsWithCosts convs;
          total = foldl (\<lambda>sum c. js_add sum (totalCost c)) (Num 0) withCosts
      in case aggregateDailyCosts convs of
           Inl e \<Rightarrow> Inl e
         | Inr dailyData \<Rightarrow>
             Inr \<lparr>ranking = withCosts, ranking_total = total,
                  last30DaysData = map (fill_day (dailyCostMap dailyData)) (getLast30Days tza today)\<rparr>)"

section \<open>Console summary\<close>

text \<open>
  The numbers that \<open>displaySummary\<close> prints, before \<open>toFixed\<close> formats them
  (\<open>toFixed\<close> prints \<open>NaN\<close> as the text NaN), and the five conversations it lists.
  The project breakdown of the second script is not modelled.
\<close>

record summary_lines =
  total_cost :: number
  total_conversations :: nat
  average_cost :: number
  top5 :: "conversation list"

definition displaySummary :: "conversation list \<Rightarrow> summary_lines" where
  "displaySummary convs =
     (let withCosts = filter (\<lambda>c. js_gt (totalCost c) (Num 0)) convs;
          total = foldl (\<lambda>sum c. js_add sum (totalCost c)) (Num 0) withCosts
      in \<lparr>total_cost = total,
          total_conversations = length withCosts,
          average_cost = js_div total (Num (real (length withCosts))),
          top5 = take 5 (js_sort by_cost_descending withCosts)\<rparr>)"

text \<open>
  \<open>main\<close>, after the scan: \<open>if (conversations.length === 0)\<close> it prints
  "No conversations found." and returns; otherwise it prints the summary and builds
  the report.
\<close>

datatype main_output = No_conversations_found | Printed summary_lines "error + report_data"

definition main :: "time_zone \<Rightarrow> int \<Rightarrow> conversation list \<Rightarrow> main_output" where
  "main tza today convs =
     (if length convs = 0 then No_conversations_found
      else Printed (displaySummary convs) (createHTMLReport tza today convs))"

section \<open>The specification's notions\<close>

text \<open>
  The definitions of this section follow the words of the specification, not the code;
  the theorems below compare the code with them.
\<close>

subsection \<open>Cost formula\<close>

datatype token_kind = Input_tokens | Output_tokens | Cache_write_tokens | Cache_read_tokens

definition token_kinds :: "token_kind list" where
  "token_kinds = [Input_tokens, Output_tokens, Cache_write_tokens, Cache_read_tokens]"

text \<open>The token count of a kind, a missing field being zero.\<close>

fun tokens_of :: "usage \<Rightarrow> token_kind \<Rightarrow> nat" where
  "tokens_of u Input_tokens = (case input_tokens u of None \<Rightarrow> 0 | Some n \<Rightarrow> n)"
| "tokens_of u Output_tokens = (case output_tokens u of None \<Rightarrow> 0 | Some n \<Rightarrow> n)"
| "tokens_of u Cache_write_tokens =
     (case cache_creation_input_tokens u of None \<Rightarrow> 0 | Some n \<Rightarrow> n)"
| "tokens_of u Cache_read_tokens =
     (case cache_read_input_tokens u of None \<Rightarrow> 0 | Some n \<Rightarrow> n)"

text \<open>The price per million tokens of a kind.\<close>

fun price_per_million :: "pricing \<Rightarrow> token_kind \<Rightarrow> real" where
  "price_per_million p Input_tokens = input p"
| "price_per_million p Output_tokens = output p"
| "price_per_million p Cache_write_tokens = cache_write p"
| "price_per_million p Cache_read_tokens = cache_read p"

text \<open>The sum over the four kinds of tokens times price, divided by 1,000,000.\<close>

definition cost_formula :: "usage \<Rightarrow> pricing \<Rightarrow> real" where
  "cost_formula u p =
     (\<Sum>k\<leftarrow>token_kinds. real (tokens_of u k) * price_per_million p k / 1000000)"

subsection \<open>Cost-bearing turns\<close>

text \<open>
  The cost of the turn that a line is for the script that reads \<open>costUSD\<close>: the direct
  cost of an assistant record that carries a non-zero one. No cost is the empty list.
\<close>

fun direct_costs :: "line \<Rightarrow> number list" where
  "direct_costs Unparseable = []"
| "direct_costs (Parsed msg) =
     (if type msg = Some ''assistant'' then
        (case costUSD msg of None \<Rightarrow> [] | Some c \<Rightarrow> if c = 0 then [] else [Num c])
      else [])"

text \<open>
  The same for the script that prices usage: an assistant record whose message carries
  usage and a non-empty model identifier costs what \<open>calculateCost\<close> computes.
\<close>

fun usage_costs :: "line \<Rightarrow> number list" where
  "usage_costs Unparseable = []"
| "usage_costs (Parsed msg) =
     (if type msg = Some ''assistant'' then
        (case message msg of
           None \<Rightarrow> []
         | Some m \<Rightarrow>
             (case (usage m, model m) of
                (Some u, Some s) \<Rightarrow> if s = [] then [] else [calculateCost (Some u) s]
              | _ \<Rightarrow> []))
      else [])"

text \<open>A valid assistant line bearing usage-and-model cost data.\<close>

fun usage_turn :: "line \<Rightarrow> bool" where
  "usage_turn Unparseable = False"
| "usage_turn (Parsed msg) =
     (type msg = Some ''assistant'' \<and>
      (case message msg of
         None \<Rightarrow> False
       | Some m \<Rightarrow> usage m \<noteq> None \<and> model m \<noteq> None \<and> model m \<noteq> Some []))"

text \<open>
  The cost of a record under the priority the specification asks for: a direct cost
  when the record has one, else the cost computed from usage and model.
\<close>

definition cost_by_priority :: "log_message \<Rightarrow> number list" where
  "cost_by_priority msg =
     (if type msg = Some ''assistant'' then
        (case costUSD msg of
           Some c \<Rightarrow> [Num c]
         | None \<Rightarrow> usage_costs (Parsed msg))
      else [])"

subsection \<open>Title candidates\<close>

text \<open>
  The titles that the metadata of a line gives explicitly (thread summary, then
  summary), its free-text summary, and the text of a user message.
\<close>

fun metadata_titles :: "line \<Rightarrow> string list" where
  "metadata_titles Unparseable = []"
| "metadata_titles (Parsed msg) =
     (if type msg = Some ''summary'' then
        (case metadata msg of
           None \<Rightarrow> []
         | Some md \<Rightarrow>
             (if truthy (thread_summary md) then [or_else (thread_summary md) []] else []) @
             (if truthy (metadata_summary md) then [or_else (metadata_summary md) []] else []))
      else [])"

fun summary_texts :: "line \<Rightarrow> string list" where
  "summary_texts Unparseable = []"
| "summary_texts (Parsed msg) =
     (if type msg = Some ''summary'' \<and> truthy (summary msg)
      then [or_else (summary msg) []] else [])"

fun user_texts :: "line \<Rightarrow> string list" where
  "user_texts Unparseable = []"
| "user_texts (Parsed msg) =
     (if type msg = Some ''user'' \<and> truthy (text msg) then [or_else (text msg) []] else [])"

text \<open>
  The title by precedence: the explicit metadata title (the latest one), else the
  free-text summary (the latest one), else the first user message cut to 100
  characters, else the literal.
\<close>

definition title_by_precedence :: "line list \<Rightarrow> string" where
  "title_by_precedence lines =
     (if concat (map metadata_titles lines) \<noteq> [] then last (concat (map metadata_titles lines))
      else if concat (map summary_texts lines) \<noteq> [] then last (concat (map summary_texts lines))
      else if concat (map user_texts lines) \<noteq> []
           then take 100 (hd (concat (map user_texts lines)))
      else ''Untitled conversation'')"

subsection \<open>Aggregations\<close>

text \<open>A conversation is in a bucket of the daily aggregation.\<close>

definition in_daily_bucket :: "conversation list \<Rightarrow> conversation \<Rightarrow> bool" where
  "in_daily_bucket convs c =
     (case aggregateDailyCosts convs of
        Inl e \<Rightarrow> False
      | Inr buckets \<Rightarrow> \<exists>b \<in> set buckets. c \<in> set (conversations b))"

text \<open>The UTC date of today and of the 29 days before it, ascending.\<close>

definition last_30_utc_days :: "int \<Rightarrow> int list" where
  "last_30_utc_days today = map (\<lambda>i. today div msPerDay - int i) (rev [0..<30])"

subsection \<open>Order of a sorted array\<close>

text \<open>
  The comparator leaves \<open>x\<close> before \<open>y\<close>: its result is not positive. A sorted
  array is one where this holds of every element and every later one.
\<close>

definition keeps_first :: "('a \<Rightarrow> 'a \<Rightarrow> number) \<Rightarrow> 'a \<Rightarrow> 'a \<Rightarrow> bool" where
  "keeps_first cmp x y = (\<not> js_gt (cmp x y) (Num 0))"

subsection \<open>Rounding errors\<close>

text \<open>
  \<open>r\<close> is a non-negative \<open>x\<close> after at most \<open>k\<close> roundings, each of a relative
  error of at most \<open>2^-53\<close>.
\<close>

definition rounded_within :: "nat \<Rightarrow> real \<Rightarrow> real \<Rightarrow> bool" where
  "rounded_within k x r = (x * (1 - 1 / 2 ^ 53) ^ k \<le> r \<and> r \<le> x * (1 + 1 / 2 ^ 53) ^ k)"

text \<open>Zero, or far from the least and the greatest double.\<close>

definition moderate :: "real \<Rightarrow> bool" where
  "moderate x = (x = 0 \<or> (1 / 2 ^ 100 \<le> x \<and> x \<le> 2 ^ 100))"

section \<open>Example values\<close>

text \<open>A record with no field, and a usage object with no field.\<close>

definition no_fields :: log_message where
  "no_fields =
     \<lparr>type = None, summary = None, metadata = None, text = None, costUSD = None,
      message = None, timestamp = None\<rparr>"

definition no_usage :: usage where
  "no_usage =
     \<lparr>input_tokens = None, output_tokens = None, cache_creation_input_tokens = None,
      cache_read_input_tokens = None\<rparr>"

definition no_metadata :: metadata where
  "no_metadata =
     \<lparr>workingDirectory = None, cwd = None, thread_summary = None, metadata_summary = None\<rparr>"

text \<open>
  \<open>{"type":"assistant","message":{"model":m,"usage":{"input_tokens":i,"output_tokens":o}}}\<close>
\<close>

definition assistant_usage :: "string \<Rightarrow> nat \<Rightarrow> nat \<Rightarrow> log_message" where
  "assistant_usage m i out =
     no_fields\<lparr>type := Some ''assistant'',
       message := Some \<lparr>usage = Some (no_usage\<lparr>input_tokens := Some i, output_tokens := Some out\<rparr>),
                         model = Some m\<rparr>\<rparr>"

text \<open>\<open>{"type":"assistant","costUSD":c}\<close>\<close>

definition assistant_costUSD :: "real \<Rightarrow> log_message" where
  "assistant_costUSD c = no_fields\<lparr>type := Some ''assistant'', costUSD := Some c\<rparr>"

text \<open>\<open>{"type":"user","text":t}\<close>\<close>

definition user_message :: "string \<Rightarrow> log_message" where
  "user_message t = no_fields\<lparr>type := Some ''user'', text := Some t\<rparr>"

text \<open>\<open>{"type":"summary","summary":s}\<close>\<close>

definition summary_message :: "string \<Rightarrow> log_message" where
  "summary_message s = no_fields\<lparr>type := Some ''summary'', summary := Some s\<rparr>"

text \<open>\<open>{"type":"summary","metadata":{"thread_summary":s}}\<close>\<close>

definition thread_summary_message :: "string \<Rightarrow> log_message" where
  "thread_summary_message s =
     no_fields\<lparr>type := Some ''summary'',
       metadata := Some (no_metadata\<lparr>thread_summary := Some s\<rparr>)\<rparr>"

text \<open>
  The local time zone of New York around the start of daylight saving time on
  2024-03-10, 07:00 UTC (time value 1710054000000): five hours behind UTC before it,
  four hours after it. A local time value is after the change from 03:00 local time.
\<close>

definition new_york_2024 :: time_zone where
  "new_york_2024 t isUTC =
     (if isUTC then (if t < 1710054000000 then - 18000000 else - 14400000)
      else (if t < 1710054000000 - 14400000 then - 18000000 else - 14400000))"

text \<open>A conversation summary with a cost, a turn count and a start time.\<close>

definition conversation_of :: "string \<Rightarrow> number \<Rightarrow> nat \<Rightarrow> date option \<Rightarrow> conversation" where
  "conversation_of name c n start =
     \<lparr>conversationId = name, conversationName = [], conversationTitle = name,
      totalCost = c, messageCount = n, startTime = start, endTime = start,
      duration = Num 0, projectName = Some ''project''\<rparr>"

text \<open>
  Three summaries: a session that cost 3 and started on 2024-03-20 (UTC day 19802),
  one that cost 3 a day earlier, and one that cost 5; and the summary of a session
  file that holds one user message only, as the scanner tags it.
\<close>

definition session_a :: conversation where
  "session_a = conversation_of ''a'' (Num 3) 1 (Some (Date 1710977400000))"

definition session_b :: conversation where
  "session_b = conversation_of ''b'' (Num 3) 2 (Some (Date 1710891000000))"

definition session_c :: conversation where
  "session_c = conversation_of ''c'' (Num 5) 1 (Some (Date 1710977400000))"

definition zero_turn_session :: conversation where
  "zero_turn_session =
     (parseJSONLFile_usage ''z.jsonl'' [Parsed (user_message ''hi'')])
       \<lparr>projectName := Some ''project''\<rparr>"

text \<open>
  Two corpora of one project with one session file: a file that holds one user message
  and no assistant record, and a file whose only record is an assistant record with a
  model and a usage of zero tokens.
\<close>

definition corpus_without_turns :: "project_files list option" where
  "corpus_without_turns = Some [(''project'', [(''z.jsonl'', Some [Parsed (user_message ''hi'')])])]"

definition corpus_without_tokens :: "project_files list option" where
  "corpus_without_tokens =
     Some [(''project'',
            [(''u.jsonl'', Some [Parsed (assistant_usage ''claude-3-5-sonnet-20241022'' 0 0)])])]"

section \<open>Pricing and the cost of a turn\<close>

lemma default_entry: "CLAUDE_PRICING_get ''default'' = Some (Entry sonnet_rates)"
  by (simp add: CLAUDE_PRICING_get_def CLAUDE_PRICING_def)

lemma own_entry: "map_of CLAUDE_PRICING k = Some p \<Longrightarrow> pricing_or_default k = Entry p"
  by (simp add: pricing_or_default_def CLAUDE_PRICING_get_def)

lemma or_zero_tokens:
  "or_zero (input_tokens u) = Num (real (tokens_of u Input_tokens))"
  "or_zero (output_tokens u) = Num (real (tokens_of u Output_tokens))"
  "or_zero (cache_creation_input_tokens u) = Num (real (tokens_of u Cache_write_tokens))"
  "or_zero (cache_read_input_tokens u) = Num (real (tokens_of u Cache_read_tokens))"
  by (simp_all add: or_zero_def split: option.splits)

lemma calculateCost_entry:
  "pricing_or_default k = Entry p \<Longrightarrow> calculateCost (Some u) k = Num (cost_formula u p)"
  by (simp add: calculateCost_def Let_def or_zero_tokens cost_formula_def token_kinds_def)

text \<open>
  In exact arithmetic the cost of a model identifier that is a key of the pricing table
  is the sum over the four token kinds of token count times price per million, divided
  by 1,000,000, a missing count being zero.
\<close>

lemma calculateCost_formula:
  "map_of CLAUDE_PRICING model_id = Some p \<Longrightarrow>
   calculateCost (Some u) model_id = Num (cost_formula u p)"
  by (rule calculateCost_entry) (rule own_entry)

lemma prototype_names_not_own:
  "list_all (\<lambda>k. map_of CLAUDE_PRICING k = None) Object_prototype_names"
  by (simp add: Object_prototype_names_def CLAUDE_PRICING_def)

lemma inherited_pricing:
  assumes "k \<in> set Object_prototype_names"
  shows "pricing_or_default k = Inherited"
proof -
  from assms prototype_names_not_own have "map_of CLAUDE_PRICING k = None"
    by (simp add: list_all_iff)
  with assms show ?thesis
    by (simp add: pricing_or_default_def CLAUDE_PRICING_get_def)
qed

lemma calculateCost_inherited:
  "pricing_or_default k = Inherited \<Longrightarrow> calculateCost (Some u) k = NaN"
  by (simp add: calculateCost_def Let_def or_zero_tokens)

text \<open>
  An identifier that is neither a key of the table nor a property name of
  \<open>Object.prototype\<close> is priced as \<open>default\<close> is.
\<close>

lemma calculateCost_unknown_model:
  "map_of CLAUDE_PRICING k = None \<Longrightarrow> k \<notin> set Object_prototype_names \<Longrightarrow>
   calculateCost usage_arg k = calculateCost usage_arg ''default''"
  by (simp add: calculateCost_def pricing_or_default_def CLAUDE_PRICING_get_def default_entry
      split: option.splits)

text \<open>
  C2. The claim is that every identifier that is not a key of the pricing table is
  priced with the \<open>default\<close> entry. The identifier \<open>constructor\<close> is not a key of the
  table, yet \<open>CLAUDE_PRICING['constructor']\<close> is the inherited, truthy
  \<open>Object.prototype.constructor\<close>: the fallback is not taken, the price fields are
  \<open>undefined\<close>, and the cost is \<open>NaN\<close>, where the \<open>default\<close> entry gives a number.
\<close>

theorem calculateCost_constructor:
  "map_of CLAUDE_PRICING ''constructor'' = None \<and>
   calculateCost (Some u) ''constructor'' = NaN \<and>
   calculateCost (Some u) ''default'' = Num (cost_formula u sonnet_rates)"
proof -
  have "''constructor'' \<in> set Object_prototype_names"
    by (simp add: Object_prototype_names_def)
  then have "calculateCost (Some u) ''constructor'' = NaN"
    by (simp add: inherited_pricing calculateCost_inherited)
  moreover have "map_of CLAUDE_PRICING ''constructor'' = None"
    by (simp add: CLAUDE_PRICING_def)
  moreover have "calculateCost (Some u) ''default'' = Num (cost_formula u sonnet_rates)"
    by (rule calculateCost_entry) (simp add: pricing_or_default_def default_entry)
  ultimately show ?thesis by simp
qed

section \<open>Sorting is stable and sorts\<close>

lemma mset_js_insert: "mset (js_insert cmp x ys) = add_mset x (mset ys)"
  by (induction ys) auto

lemma mset_js_sort: "mset (js_sort cmp xs) = mset xs"
  by (induction xs) (auto simp: js_sort_def mset_js_insert)

lemma set_js_sort: "set (js_sort cmp xs) = set xs"
  using mset_js_sort [of cmp xs] by (metis set_mset_mset)

lemma js_sort_Cons: "js_sort cmp (x # xs) = js_insert cmp x (js_sort cmp xs)"
  by (simp add: js_sort_def)

lemma js_sort_Nil: "js_sort cmp [] = []"
  by (simp add: js_sort_def)

lemma filter_js_insert:
  assumes "\<And>y. P x \<Longrightarrow> P y \<Longrightarrow> \<not> js_gt (cmp x y) (Num 0)"
  shows "filter P (js_insert cmp x ys) = (if P x then x # filter P ys else filter P ys)"
  using assms by (induction ys) auto

lemma filter_js_sort:
  assumes "\<And>x y. P x \<Longrightarrow> P y \<Longrightarrow> \<not> js_gt (cmp x y) (Num 0)"
  shows "filter P (js_sort cmp xs) = filter P xs"
proof (induction xs)
  case Nil
  show ?case by (simp add: js_sort_Nil)
next
  case (Cons x xs)
  have "filter P (js_insert cmp x (js_sort cmp xs)) =
        (if P x then x # filter P (js_sort cmp xs) else filter P (js_sort cmp xs))"
    by (rule filter_js_insert) (rule assms)
  with Cons show ?case by (simp add: js_sort_Cons)
qed

lemma sorted_js_insert:
  assumes total: "\<And>y. y \<in> set ys \<Longrightarrow> \<not> keeps_first cmp x y \<Longrightarrow> keeps_first cmp y x"
    and trans: "\<And>y z. y \<in> set ys \<Longrightarrow> z \<in> set ys \<Longrightarrow> keeps_first cmp x y \<Longrightarrow>
                 keeps_first cmp y z \<Longrightarrow> keeps_first cmp x z"
    and sorted: "sorted_wrt (keeps_first cmp) ys"
  shows "sorted_wrt (keeps_first cmp) (js_insert cmp x ys)"
  using assms
proof (induction ys)
  case Nil
  then show ?case by simp
next
  case (Cons y ys)
  show ?case
  proof (cases "js_gt (cmp x y) (Num 0)")
    case True
    then have nk: "\<not> keeps_first cmp x y" by (simp add: keeps_first_def)
    have yx: "keeps_first cmp y x" using Cons.prems(1) [of y] nk by simp
    have IH: "sorted_wrt (keeps_first cmp) (js_insert cmp x ys)"
      using Cons.prems by (intro Cons.IH) auto
    have "\<forall>z \<in> set (js_insert cmp x ys). keeps_first cmp y z"
    proof
      fix z assume "z \<in> set (js_insert cmp x ys)"
      then have "z \<in># mset (js_insert cmp x ys)" by simp
      then have "z = x \<or> z \<in> set ys" by (simp add: mset_js_insert)
      with yx Cons.prems(3) show "keeps_first cmp y z" by auto
    qed
    with IH True show ?thesis by simp
  next
    case False
    then have k: "keeps_first cmp x y" by (simp add: keeps_first_def)
    have "\<forall>z \<in> set ys. keeps_first cmp x z"
    proof
      fix z assume z: "z \<in> set ys"
      with Cons.prems(3) have "keeps_first cmp y z" by simp
      with Cons.prems(2) [of y z] k z show "keeps_first cmp x z" by simp
    qed
    with k False Cons.prems(3) show ?thesis by simp
  qed
qed

lemma sorted_js_sort:
  assumes total: "\<And>x y. x \<in> set xs \<Longrightarrow> y \<in> set xs \<Longrightarrow> \<not> keeps_first cmp x y \<Longrightarrow> keeps_first cmp y x"
    and trans: "\<And>x y z. x \<in> set xs \<Longrightarrow> y \<in> set xs \<Longrightarrow> z \<in> set xs \<Longrightarrow>
                 keeps_first cmp x y \<Longrightarrow> keeps_first cmp y z \<Longrightarrow> keeps_first cmp x z"
  shows "sorted_wrt (keeps_first cmp) (js_sort cmp xs)"
  using assms
proof (induction xs)
  case Nil
  show ?case by (simp add: js_sort_Nil)
next
  case (Cons a xs)
  have IH: "sorted_wrt (keeps_first cmp) (js_sort cmp xs)"
  proof (rule Cons.IH)
    fix x y assume "x \<in> set xs" "y \<in> set xs" "\<not> keeps_first cmp x y"
    then show "keeps_first cmp y x" by (intro Cons.prems(1)) simp_all
  next
    fix x y z assume "x \<in> set xs" "y \<in> set xs" "z \<in> set xs"
      "keeps_first cmp x y" "keeps_first cmp y z"
    then show "keeps_first cmp x z" by (intro Cons.prems(2) [of x y z]) simp_all
  qed
  have "sorted_wrt (keeps_first cmp) (js_insert cmp a (js_sort cmp xs))"
  proof (rule sorted_js_insert)
    show "sorted_wrt (keeps_first cmp) (js_sort cmp xs)" by (rule IH)
  next
    fix y assume "y \<in> set (js_sort cmp xs)" "\<not> keeps_first cmp a y"
    then show "keeps_first cmp y a" by (intro Cons.prems(1)) (simp_all add: set_js_sort)
  next
    fix y z assume "y \<in> set (js_sort cmp xs)" "z \<in> set (js_sort cmp xs)"
      "keeps_first cmp a y" "keeps_first cmp y z"
    then show "keeps_first cmp a z"
      by (intro Cons.prems(2) [of a y z]) (simp_all add: set_js_sort)
  qed
  then show ?case by (simp add: js_sort_Cons)
qed

text \<open>The cost comparator on positive costs.\<close>

lemma positive_cases:
  "js_gt c (Num 0) \<Longrightarrow> c = Infinity \<or> (\<exists>r. 0 < r \<and> c = Num r)"
  by (cases c) (simp_all add: js_gt_def)

lemma keeps_first_cost:
  assumes "js_gt (totalCost a) (Num 0)" "js_gt (totalCost b) (Num 0)"
  shows "keeps_first by_cost_descending a b \<longleftrightarrow>
         (js_gt (totalCost a) (totalCost b) \<or> totalCost a = totalCost b)"
  using positive_cases [OF assms(1)] positive_cases [OF assms(2)]
  by (auto simp: keeps_first_def by_cost_descending_def js_sub_def js_gt_def)

lemma equal_cost_keeps_first:
  "totalCost a = totalCost b \<Longrightarrow> \<not> js_gt (by_cost_descending a b) (Num 0)"
  by (cases "totalCost b") (simp_all add: by_cost_descending_def js_sub_def js_gt_def)

section \<open>The parser loop\<close>

text \<open>What one iteration does to each variable.\<close>

lemma step_count_usage:
  "messageCount_v (process_line_usage v l) = messageCount_v v + length (usage_costs l)"
  by (cases l)
    (auto simp: extract_cost_usage_def track_time_range_def capture_first_user_message_def
      extract_metadata_def Let_def split: option.splits)

lemma step_cost_usage:
  "totalCost_v (process_line_usage v l) = foldl js_add (totalCost_v v) (usage_costs l)"
  by (cases l)
    (auto simp: extract_cost_usage_def track_time_range_def capture_first_user_message_def
      extract_metadata_def Let_def split: option.splits)

lemma step_count_costUSD:
  "messageCount_v (process_line_costUSD v l) = messageCount_v v + length (direct_costs l)"
  by (cases l)
    (auto simp: extract_cost_costUSD_def track_time_range_def capture_first_user_message_def
      extract_metadata_def Let_def split: option.splits)

lemma step_cost_costUSD:
  "totalCost_v (process_line_costUSD v l) = foldl js_add (totalCost_v v) (direct_costs l)"
  by (cases l)
    (auto simp: extract_cost_costUSD_def track_time_range_def capture_first_user_message_def
      extract_metadata_def Let_def split: option.splits)

lemma loop_count_usage:
  "messageCount_v (foldl process_line_usage v ls) =
   messageCount_v v + length (concat (map usage_costs ls))"
  by (induction ls arbitrary: v) (simp_all add: step_count_usage)

lemma loop_cost_usage:
  "totalCost_v (foldl process_line_usage v ls) =
   foldl js_add (totalCost_v v) (concat (map usage_costs ls))"
  by (induction ls arbitrary: v) (simp_all add: step_cost_usage)

lemma loop_count_costUSD:
  "messageCount_v (foldl process_line_costUSD v ls) =
   messageCount_v v + length (concat (map direct_costs ls))"
  by (induction ls arbitrary: v) (simp_all add: step_count_costUSD)

lemma loop_cost_costUSD:
  "totalCost_v (foldl process_line_costUSD v ls) =
   foldl js_add (totalCost_v v) (concat (map direct_costs ls))"
  by (induction ls arbitrary: v) (simp_all add: step_cost_costUSD)

lemma summary_of_fields [simp]:
  "messageCount (summary_of f v) = messageCount_v v"
  "totalCost (summary_of f v) = totalCost_v v"
  "startTime (summary_of f v) = startTime_v v"
  "conversationTitle (summary_of f v) = take 100 (replace_newlines (best_title v))"
  by (simp_all add: summary_of_def)

lemma initial_fields [simp]:
  "messageCount_v initial_vars = 0"
  "totalCost_v initial_vars = Num 0"
  "conversationTitle_v initial_vars = []"
  "summary_v initial_vars = []"
  "firstUserMessage_v initial_vars = []"
  by (simp_all add: initial_vars_def)

lemma usage_costs_turn: "length (usage_costs l) = (if usage_turn l then 1 else 0)"
  by (cases l) (auto split: option.splits)

lemma count_usage_turns: "length (concat (map usage_costs ls)) = length (filter usage_turn ls)"
  by (induction ls) (simp_all add: usage_costs_turn)

lemma skip_unparseable_usage:
  "foldl process_line_usage v (filter (\<lambda>l. l \<noteq> Unparseable) ls) = foldl process_line_usage v ls"
  by (induction ls arbitrary: v) simp_all

lemma skip_unparseable_costUSD:
  "foldl process_line_costUSD v (filter (\<lambda>l. l \<noteq> Unparseable) ls) = foldl process_line_costUSD v ls"
  by (induction ls arbitrary: v) simp_all

lemma zero_turns_zero_cost_usage:
  assumes "messageCount (parseJSONLFile_usage f ls) = 0"
  shows "totalCost (parseJSONLFile_usage f ls) = Num 0"
proof -
  from assms have "length (concat (map usage_costs ls)) = 0"
    by (simp only: parseJSONLFile_usage_def summary_of_fields loop_count_usage initial_fields)
  then have e: "concat (map usage_costs ls) = []"
    by (simp only: length_0_conv)
  show ?thesis
    by (simp only: parseJSONLFile_usage_def summary_of_fields loop_cost_usage e initial_fields
        foldl_Nil)
qed

lemma zero_turns_zero_cost_costUSD:
  assumes "messageCount (parseJSONLFile_costUSD f ls) = 0"
  shows "totalCost (parseJSONLFile_costUSD f ls) = Num 0"
proof -
  from assms have "length (concat (map direct_costs ls)) = 0"
    by (simp only: parseJSONLFile_costUSD_def summary_of_fields loop_count_costUSD initial_fields)
  then have e: "concat (map direct_costs ls) = []"
    by (simp only: length_0_conv)
  show ?thesis
    by (simp only: parseJSONLFile_costUSD_def summary_of_fields loop_cost_costUSD e initial_fields
        foldl_Nil)
qed

subsection \<open>Title variables\<close>

lemma step_title:
  "conversationTitle_v (process_line_usage v l) =
   (if metadata_titles l = [] then conversationTitle_v v else last (metadata_titles l))"
  by (cases l)
    (auto simp: extract_cost_usage_def track_time_range_def capture_first_user_message_def
      extract_metadata_def Let_def split: option.splits)

lemma step_summary:
  "summary_v (process_line_usage v l) =
   (if summary_texts l = [] then summary_v v else last (summary_texts l))"
  by (cases l)
    (auto simp: extract_cost_usage_def track_time_range_def capture_first_user_message_def
      extract_metadata_def Let_def split: option.splits)

lemma step_first_user:
  "firstUserMessage_v (process_line_usage v l) =
   (if firstUserMessage_v v = [] \<and> user_texts l \<noteq> [] then take 100 (hd (user_texts l))
    else firstUserMessage_v v)"
  by (cases l)
    (auto simp: extract_cost_usage_def track_time_range_def capture_first_user_message_def
      extract_metadata_def Let_def split: option.splits)

lemma truthy_or_else: "truthy x \<Longrightarrow> or_else x [] \<noteq> []"
  by (cases x) simp_all

lemma user_texts_nonempty: "t \<in> set (user_texts l) \<Longrightarrow> t \<noteq> []"
  by (cases l) (auto simp: truthy_or_else split: if_splits)

lemma candidate_nonempty:
  "t \<in> set (if truthy x then [or_else x []] else []) \<Longrightarrow> t \<noteq> []"
  by (cases "truthy x") (simp_all add: truthy_or_else)

lemma metadata_titles_nonempty:
  assumes "t \<in> set (metadata_titles l)"
  shows "t \<noteq> []"
proof (cases l)
  case Unparseable
  with assms show ?thesis by simp
next
  case (Parsed msg)
  show ?thesis
  proof (cases "type msg = Some ''summary''")
    case False
    with assms Parsed show ?thesis by simp
  next
    case True
    show ?thesis
    proof (cases "metadata msg")
      case None
      with assms Parsed True show ?thesis by simp
    next
      case (Some md)
      with assms Parsed True
      have "t \<in> set (if truthy (thread_summary md) then [or_else (thread_summary md) []] else [])
          \<or> t \<in> set (if truthy (metadata_summary md) then [or_else (metadata_summary md) []] else [])"
        by (simp del: set_simps)
      then show ?thesis using candidate_nonempty by blast
    qed
  qed
qed

lemma summary_texts_nonempty: "t \<in> set (summary_texts l) \<Longrightarrow> t \<noteq> []"
  by (cases l) (auto simp: truthy_or_else split: if_splits)

lemma loop_title:
  "conversationTitle_v (foldl process_line_usage v ls) =
   (if concat (map metadata_titles ls) = [] then conversationTitle_v v
    else last (concat (map metadata_titles ls)))"
proof (induction ls arbitrary: v)
  case Nil
  show ?case by simp
next
  case (Cons l ls)
  show ?case
    by (simp add: Cons.IH step_title last_append del: concat_eq_Nil_conv)
qed

lemma loop_summary:
  "summary_v (foldl process_line_usage v ls) =
   (if concat (map summary_texts ls) = [] then summary_v v
    else last (concat (map summary_texts ls)))"
proof (induction ls arbitrary: v)
  case Nil
  show ?case by simp
next
  case (Cons l ls)
  show ?case
    by (simp add: Cons.IH step_summary last_append del: concat_eq_Nil_conv)
qed

lemma first_user_captured:
  assumes "user_texts l \<noteq> []"
  shows "hd (user_texts l) \<noteq> []"
proof -
  from assms have "hd (user_texts l) \<in> set (user_texts l)" by simp
  then show ?thesis by (rule user_texts_nonempty)
qed

lemma loop_first_user:
  "firstUserMessage_v (foldl process_line_usage v ls) =
   (if firstUserMessage_v v = [] \<and> concat (map user_texts ls) \<noteq> []
    then take 100 (hd (concat (map user_texts ls))) else firstUserMessage_v v)"
proof (induction ls arbitrary: v)
  case Nil
  show ?case by simp
next
  case (Cons l ls)
  show ?case
  proof (cases "firstUserMessage_v v = [] \<and> user_texts l \<noteq> []")
    case True
    then have "firstUserMessage_v (process_line_usage v l) = take 100 (hd (user_texts l))"
      by (simp add: step_first_user)
    moreover from True have "hd (user_texts l) \<noteq> []"
      by (simp add: first_user_captured)
    ultimately show ?thesis
      using True by (simp add: Cons.IH del: concat_eq_Nil_conv)
  next
    case False
    have same: "firstUserMessage_v (process_line_usage v l) = firstUserMessage_v v"
      by (simp only: step_first_user False if_False)
    show ?thesis
    proof (cases "firstUserMessage_v v = []")
      case True
      with False have "user_texts l = []" by simp
      with same True show ?thesis by (simp add: Cons.IH del: concat_eq_Nil_conv)
    next
      case False
      with same show ?thesis by (simp add: Cons.IH del: concat_eq_Nil_conv)
    qed
  qed
qed

section \<open>The parser on whole files\<close>

lemmas example_defs =
  no_fields_def no_usage_def no_metadata_def assistant_usage_def assistant_costUSD_def
  user_message_def summary_message_def thread_summary_message_def

lemmas parser_defs =
  parseJSONLFile_usage_def parseJSONLFile_costUSD_def summary_of_def initial_vars_def
  extract_metadata_def capture_first_user_message_def extract_cost_usage_def
  extract_cost_costUSD_def track_time_range_def best_title_def replace_newlines_def
  basename_jsonl_def

lemma sonnet_3_5: "pricing_or_default ''claude-3-5-sonnet-20241022'' = Entry sonnet_rates"
  by (rule own_entry) (simp add: CLAUDE_PRICING_def)

lemma example_cost:
  "calculateCost
     (Some \<lparr>input_tokens = Some 500000, output_tokens = Some 100000,
            cache_creation_input_tokens = None, cache_read_input_tokens = None\<rparr>)
     ''claude-3-5-sonnet-20241022'' = Num 3"
  by (simp add: calculateCost_entry [OF sonnet_3_5] cost_formula_def token_kinds_def
      sonnet_rates_def)

text \<open>
  C7. Malformed lines never abort a session parse. \<open>parseJSONLFile\<close> is a total
  function of the lines of the file; the turn count it returns is the number of valid
  assistant lines bearing usage and model, whatever else the file holds; and the lines
  that fail to parse are skipped: the summary is the one of the file without them.
\<close>

theorem malformed_lines_skipped:
  "messageCount (parseJSONLFile_usage f ls) = length (filter usage_turn ls) \<and>
   parseJSONLFile_usage f (filter (\<lambda>l. l \<noteq> Unparseable) ls) = parseJSONLFile_usage f ls"
  by (simp add: parseJSONLFile_usage_def loop_count_usage count_usage_turns skip_unparseable_usage)

text \<open>A file with three unparseable lines and two assistant usage lines has two turns.\<close>

theorem malformed_lines_skipped_witness:
  "messageCount
     (parseJSONLFile_usage ''a.jsonl''
        [Unparseable, Parsed (assistant_usage ''claude-3-5-sonnet-20241022'' 500000 100000),
         Unparseable, Unparseable,
         Parsed (assistant_usage ''claude-3-5-sonnet-20241022'' 500000 100000)]) = 2"
  using malformed_lines_skipped [of "''a.jsonl''"
      "[Unparseable, Parsed (assistant_usage ''claude-3-5-sonnet-20241022'' 500000 100000),
         Unparseable, Unparseable,
         Parsed (assistant_usage ''claude-3-5-sonnet-20241022'' 500000 100000)]"]
  by (simp add: example_defs)

lemma best_title_cases:
  assumes "conversationTitle_v v = (if mt = [] then [] else last mt)"
    and "summary_v v = (if st = [] then [] else last st)"
    and "firstUserMessage_v v = (if ut \<noteq> [] then take 100 (hd ut) else [])"
    and "mt \<noteq> [] \<Longrightarrow> last mt \<noteq> []"
    and "st \<noteq> [] \<Longrightarrow> last st \<noteq> []"
    and "ut \<noteq> [] \<Longrightarrow> hd ut \<noteq> []"
  shows "best_title v =
    (if mt \<noteq> [] then last mt else if st \<noteq> [] then last st
     else if ut \<noteq> [] then take 100 (hd ut) else ''Untitled conversation'')"
  using assms by (simp add: best_title_def)

lemma best_title_loop:
  "best_title (foldl process_line_usage initial_vars ls) = title_by_precedence ls"
proof -
  let ?v = "foldl process_line_usage initial_vars ls"
  let ?mt = "concat (map metadata_titles ls)"
  let ?st = "concat (map summary_texts ls)"
  let ?ut = "concat (map user_texts ls)"
  have ct: "conversationTitle_v ?v = (if ?mt = [] then [] else last ?mt)"
    by (simp only: loop_title initial_fields)
  have sv: "summary_v ?v = (if ?st = [] then [] else last ?st)"
    by (simp only: loop_summary initial_fields)
  have fu: "firstUserMessage_v ?v = (if ?ut \<noteq> [] then take 100 (hd ?ut) else [])"
    by (simp only: loop_first_user initial_fields simp_thms)
  have mt_ne: "last ?mt \<noteq> []" if "?mt \<noteq> []"
  proof -
    from that have "last ?mt \<in> set ?mt" by (rule last_in_set)
    then obtain l where "last ?mt \<in> set (metadata_titles l)" by auto
    then show ?thesis by (rule metadata_titles_nonempty)
  qed
  have st_ne: "last ?st \<noteq> []" if "?st \<noteq> []"
  proof -
    from that have "last ?st \<in> set ?st" by (rule last_in_set)
    then obtain l where "last ?st \<in> set (summary_texts l)" by auto
    then show ?thesis by (rule summary_texts_nonempty)
  qed
  have ut_ne: "hd ?ut \<noteq> []" if "?ut \<noteq> []"
  proof -
    from that have "hd ?ut \<in> set ?ut" by (rule hd_in_set)
    then obtain l where "hd ?ut \<in> set (user_texts l)" by auto
    then show ?thesis by (rule user_texts_nonempty)
  qed
  have "best_title ?v =
    (if ?mt \<noteq> [] then last ?mt else if ?st \<noteq> [] then last ?st
     else if ?ut \<noteq> [] then take 100 (hd ?ut) else ''Untitled conversation'')"
    using ct sv fu mt_ne st_ne ut_ne by (rule best_title_cases)
  then show ?thesis by (simp only: title_by_precedence_def)
qed

lemma no_newline_left: "CHR 0x0A \<notin> set (replace_newlines s)"
  by (induction s) (simp_all add: replace_newlines_def)

text \<open>
  C9. The display title is resolved after the loop, by precedence: the explicit
  thread or summary metadata, else the free-text summary, else the first user message
  cut to 100 characters, else "Untitled conversation"; newlines of the chosen title
  are replaced by spaces and the result is cut to 100 characters.
\<close>

theorem title_resolution:
  "conversationTitle (parseJSONLFile_usage f ls) =
     take 100 (replace_newlines (title_by_precedence ls)) \<and>
   length (conversationTitle (parseJSONLFile_usage f ls)) \<le> 100 \<and>
   CHR 0x0A \<notin> set (conversationTitle (parseJSONLFile_usage f ls))"
proof -
  have eq: "conversationTitle (parseJSONLFile_usage f ls) =
      take 100 (replace_newlines (title_by_precedence ls))"
    by (simp add: parseJSONLFile_usage_def best_title_loop)
  have "CHR 0x0A \<notin> set (take 100 (replace_newlines (title_by_precedence ls)))"
    using no_newline_left [of "title_by_precedence ls"] by (auto dest: in_set_takeD)
  with eq show ?thesis by simp
qed

text \<open>Four files, each with less title information than the one before.\<close>

theorem title_resolution_witness:
  "conversationTitle
     (parseJSONLFile_usage ''a.jsonl''
        [Parsed (user_message ''hi''), Parsed (summary_message ''s1''),
         Parsed (user_message ''ho''), Parsed (thread_summary_message [CHR ''a'', CHR 0x0A, CHR ''b'']),
         Parsed (summary_message ''s2'')]) = ''a b'' \<and>
   conversationTitle
     (parseJSONLFile_usage ''a.jsonl''
        [Parsed (user_message ''hi''), Parsed (summary_message ''s1''),
         Parsed (user_message ''ho''), Parsed (summary_message ''s2'')]) = ''s2'' \<and>
   conversationTitle
     (parseJSONLFile_usage ''a.jsonl'' [Parsed (user_message ''hi''), Parsed (user_message ''ho'')])
     = ''hi'' \<and>
   conversationTitle (parseJSONLFile_usage ''a.jsonl'' [Unparseable]) = ''Untitled conversation''"
  using
    title_resolution [of "''a.jsonl''"
      "[Parsed (user_message ''hi''), Parsed (summary_message ''s1''),
         Parsed (user_message ''ho''), Parsed (thread_summary_message [CHR ''a'', CHR 0x0A, CHR ''b'']),
         Parsed (summary_message ''s2'')]"]
    title_resolution [of "''a.jsonl''"
      "[Parsed (user_message ''hi''), Parsed (summary_message ''s1''),
         Parsed (user_message ''ho''), Parsed (summary_message ''s2'')]"]
    title_resolution [of "''a.jsonl''" "[Parsed (user_message ''hi''), Parsed (user_message ''ho'')]"]
    title_resolution [of "''a.jsonl''" "[Unparseable]"]
  by (simp add: example_defs title_by_precedence_def replace_newlines_def)

text \<open>
  The first script resolves the title as the second does: the two loops differ in the
  cost block only, which leaves the title variables alone.
\<close>

lemma same_title_variables_step:
  assumes "conversationTitle_v v = conversationTitle_v w" "summary_v v = summary_v w"
    "firstUserMessage_v v = firstUserMessage_v w"
  shows "conversationTitle_v (process_line_costUSD v l) = conversationTitle_v (process_line_usage w l) \<and>
    summary_v (process_line_costUSD v l) = summary_v (process_line_usage w l) \<and>
    firstUserMessage_v (process_line_costUSD v l) = firstUserMessage_v (process_line_usage w l)"
  using assms
  by (cases l)
    (auto simp: extract_cost_usage_def extract_cost_costUSD_def track_time_range_def
      capture_first_user_message_def extract_metadata_def Let_def split: option.splits)

lemma same_title_variables_loop:
  assumes "conversationTitle_v v = conversationTitle_v w" "summary_v v = summary_v w"
    "firstUserMessage_v v = firstUserMessage_v w"
  shows "conversationTitle_v (foldl process_line_costUSD v ls) =
      conversationTitle_v (foldl process_line_usage w ls) \<and>
    summary_v (foldl process_line_costUSD v ls) = summary_v (foldl process_line_usage w ls) \<and>
    firstUserMessage_v (foldl process_line_costUSD v ls) =
      firstUserMessage_v (foldl process_line_usage w ls)"
  using assms
proof (induction ls arbitrary: v w)
  case Nil
  then show ?case by simp
next
  case (Cons l ls)
  from same_title_variables_step [OF Cons.prems, of l]
  show ?case by (simp only: foldl_Cons) (intro Cons.IH, simp_all)
qed

lemma title_costUSD_script:
  "conversationTitle (parseJSONLFile_costUSD f ls) = conversationTitle (parseJSONLFile_usage f ls)"
proof -
  have "best_title (foldl process_line_costUSD initial_vars ls) =
        best_title (foldl process_line_usage initial_vars ls)"
    using same_title_variables_loop [of initial_vars initial_vars ls]
    by (simp add: best_title_def)
  then show ?thesis
    by (simp add: parseJSONLFile_costUSD_def parseJSONLFile_usage_def)
qed

text \<open>
  C6, as amended. Each script supports one cost source and neither applies a priority
  between the two. The script that reads \<open>costUSD\<close> counts an assistant record
  exactly when it carries a non-zero \<open>costUSD\<close> and adds that value as it is; the
  script that prices usage counts an assistant record exactly when its message carries
  usage and a non-empty model, and adds \<open>calculateCost(usage, model)\<close>.
\<close>

theorem one_cost_source_per_script:
  "messageCount (parseJSONLFile_costUSD f ls) = length (concat (map direct_costs ls)) \<and>
   totalCost (parseJSONLFile_costUSD f ls) = foldl js_add (Num 0) (concat (map direct_costs ls)) \<and>
   messageCount (parseJSONLFile_usage f ls) = length (concat (map usage_costs ls)) \<and>
   totalCost (parseJSONLFile_usage f ls) = foldl js_add (Num 0) (concat (map usage_costs ls))"
  by (simp add: parseJSONLFile_costUSD_def parseJSONLFile_usage_def loop_count_costUSD
      loop_cost_costUSD loop_count_usage loop_cost_usage)

text \<open>One file with a direct cost and a usage record: each script counts its own record.\<close>

theorem one_cost_source_per_script_witness:
  "messageCount
     (parseJSONLFile_costUSD ''a.jsonl''
        [Parsed (assistant_costUSD (1 / 2)),
         Parsed (assistant_usage ''claude-3-5-sonnet-20241022'' 500000 100000)]) = 1 \<and>
   totalCost
     (parseJSONLFile_costUSD ''a.jsonl''
        [Parsed (assistant_costUSD (1 / 2)),
         Parsed (assistant_usage ''claude-3-5-sonnet-20241022'' 500000 100000)]) = Num (1 / 2) \<and>
   messageCount
     (parseJSONLFile_usage ''a.jsonl''
        [Parsed (assistant_costUSD (1 / 2)),
         Parsed (assistant_usage ''claude-3-5-sonnet-20241022'' 500000 100000)]) = 1 \<and>
   totalCost
     (parseJSONLFile_usage ''a.jsonl''
        [Parsed (assistant_costUSD (1 / 2)),
         Parsed (assistant_usage ''claude-3-5-sonnet-20241022'' 500000 100000)]) = Num 3"
  using one_cost_source_per_script [of "''a.jsonl''"
      "[Parsed (assistant_costUSD (1 / 2)),
         Parsed (assistant_usage ''claude-3-5-sonnet-20241022'' 500000 100000)]"]
  by (simp add: example_defs example_cost)

text \<open>
  C6 as claimed fails. By the claimed priority an assistant record with a direct cost
  of 0.5 costs 0.5, and one with usage and model costs what the pricing table gives (3
  here). The script that prices usage does not count the first record, and the script
  that reads \<open>costUSD\<close> does not count the second.
\<close>

theorem cost_priority_counterexample:
  "cost_by_priority (assistant_costUSD (1 / 2)) = [Num (1 / 2)] \<and>
   messageCount (parseJSONLFile_usage ''a.jsonl'' [Parsed (assistant_costUSD (1 / 2))]) = 0 \<and>
   totalCost (parseJSONLFile_usage ''a.jsonl'' [Parsed (assistant_costUSD (1 / 2))]) = Num 0 \<and>
   cost_by_priority (assistant_usage ''claude-3-5-sonnet-20241022'' 500000 100000) = [Num 3] \<and>
   messageCount
     (parseJSONLFile_costUSD ''a.jsonl''
        [Parsed (assistant_usage ''claude-3-5-sonnet-20241022'' 500000 100000)]) = 0 \<and>
   totalCost
     (parseJSONLFile_costUSD ''a.jsonl''
        [Parsed (assistant_usage ''claude-3-5-sonnet-20241022'' 500000 100000)]) = Num 0"
  by (simp add: parser_defs example_defs cost_by_priority_def example_cost)

section \<open>Aggregation\<close>

lemma skip_conversation:
  "\<not> cost_bearing_with_start c \<Longrightarrow>
   aggregate_forEach (c # rest) acc = aggregate_forEach rest acc"
  by (auto simp: cost_bearing_with_start_def split: option.splits)

lemma aggregate_forEach_filter:
  assumes "\<And>c. c \<in> set convs \<Longrightarrow> \<not> P c \<Longrightarrow> \<not> cost_bearing_with_start c"
  shows "aggregate_forEach (filter P convs) acc = aggregate_forEach convs acc"
  using assms
proof (induction convs arbitrary: acc)
  case Nil
  show ?case by simp
next
  case (Cons c convs)
  have IH: "aggregate_forEach (filter P convs) acc' = aggregate_forEach convs acc'" for acc'
    by (rule Cons.IH) (simp add: Cons.prems)
  show ?case
  proof (cases "P c")
    case True
    then show ?thesis by (simp add: IH split: option.splits sum.splits)
  next
    case False
    then have "\<not> cost_bearing_with_start c" by (simp add: Cons.prems)
    then have "aggregate_forEach (c # convs) acc = aggregate_forEach convs acc"
      by (rule skip_conversation)
    with False show ?thesis by (simp only: filter.simps if_False IH)
  qed
qed

lemma aggregateDailyCosts_filter:
  assumes "\<And>c. c \<in> set convs \<Longrightarrow> \<not> P c \<Longrightarrow> \<not> cost_bearing_with_start c"
  shows "aggregateDailyCosts (filter P convs) = aggregateDailyCosts convs"
proof -
  have "aggregate_forEach (filter P convs) [] = aggregate_forEach convs []"
    using assms by (rule aggregate_forEach_filter)
  then show ?thesis by (simp only: aggregateDailyCosts_def)
qed

lemma conversationsWithCosts_filter:
  assumes "\<And>c. c \<in> set convs \<Longrightarrow> \<not> P c \<Longrightarrow> \<not> js_gt (totalCost c) (Num 0)"
  shows "conversationsWithCosts (filter P convs) = conversationsWithCosts convs"
proof -
  have "filter (\<lambda>c. js_gt (totalCost c) (Num 0)) (filter P convs) =
        filter (\<lambda>c. js_gt (totalCost c) (Num 0)) convs"
    using assms by (induction convs) auto
  then show ?thesis by (simp only: conversationsWithCosts_def)
qed

lemma members_dailyCosts_add:
  "(\<Union>b \<in> set (dailyCosts_add k c ds). set (conversations b)) =
   insert c (\<Union>b \<in> set ds. set (conversations b))"
  by (induction ds) (auto simp: add_conversation_def)

lemma aggregate_forEach_members:
  "aggregate_forEach convs acc = Inr ds \<Longrightarrow>
   (\<Union>b \<in> set ds. set (conversations b)) =
   (\<Union>b \<in> set acc. set (conversations b)) \<union> {c \<in> set convs. cost_bearing_with_start c}"
proof (induction convs arbitrary: acc)
  case Nil
  then show ?case by simp
next
  case (Cons c convs)
  show ?case
  proof (cases "cost_bearing_with_start c")
    case False
    with Cons.prems have "aggregate_forEach convs acc = Inr ds"
      using skip_conversation [of c convs acc] by simp
    from Cons.IH [OF this] False show ?thesis by auto
  next
    case True
    then obtain d where d: "startTime c = Some d" and pos: "js_gt (totalCost c) (Num 0)"
      by (auto simp: cost_bearing_with_start_def)
    from Cons.prems d pos obtain k where k: "toISOString_date d = Inr k"
      and rest: "aggregate_forEach convs (dailyCosts_add k c acc) = Inr ds"
      by (auto split: sum.splits)
    from Cons.IH [OF rest] True show ?thesis
      by (auto simp: members_dailyCosts_add)
  qed
qed

lemma in_daily_bucket_iff:
  "in_daily_bucket convs c \<longleftrightarrow>
   (\<exists>ds. aggregateDailyCosts convs = Inr ds) \<and> c \<in> set convs \<and> cost_bearing_with_start c"
proof (cases "aggregate_forEach convs []")
  case (Inl e)
  then show ?thesis by (simp add: in_daily_bucket_def aggregateDailyCosts_def)
next
  case (Inr ds)
  from aggregate_forEach_members [OF Inr]
  have "(\<Union>b \<in> set ds. set (conversations b)) = {c \<in> set convs. cost_bearing_with_start c}"
    by simp
  then have "(\<exists>b \<in> set ds. c \<in> set (conversations b)) \<longleftrightarrow>
      c \<in> set convs \<and> cost_bearing_with_start c"
    by blast
  with Inr show ?thesis
    by (simp add: in_daily_bucket_def aggregateDailyCosts_def set_js_sort)
qed

lemma ranked_iff:
  "c \<in> set (conversationsWithCosts convs) \<longleftrightarrow> c \<in> set convs \<and> js_gt (totalCost c) (Num 0)"
  by (simp add: conversationsWithCosts_def set_js_sort)


lemma not_cost_bearing:
  "\<not> js_gt (totalCost c) (Num 0) \<or> startTime c = None \<Longrightarrow> \<not> cost_bearing_with_start c"
  by (auto simp: cost_bearing_with_start_def)

lemma remove_unaggregated:
  assumes "\<not> cost_bearing_with_start c"
  shows "aggregateDailyCosts (filter (\<lambda>x. x \<noteq> c) convs) = aggregateDailyCosts convs"
  by (rule aggregateDailyCosts_filter) (simp add: assms)

lemma remove_unranked:
  assumes "\<not> js_gt (totalCost c) (Num 0)"
  shows "conversationsWithCosts (filter (\<lambda>x. x \<noteq> c) convs) = conversationsWithCosts convs"
  by (rule conversationsWithCosts_filter) (simp add: assms)

lemma zero_turn_summary:
  assumes "c = (parseJSONLFile_usage f ls)\<lparr>projectName := p\<rparr> \<or>
           c = (parseJSONLFile_costUSD f ls)\<lparr>projectName := p\<rparr>"
    and "messageCount c = 0"
  shows "totalCost c = Num 0"
  using assms zero_turns_zero_cost_usage [of f ls] zero_turns_zero_cost_costUSD [of f ls]
  by auto

text \<open>
  C8. A summary that a parser returns with zero cost-bearing turns is in no ranking
  and in no daily bucket, whatever collection it is part of. More generally a summary
  whose cost is not positive is not ranked, and a summary whose cost is not positive or
  whose earliest timestamp is null is in no daily bucket; the ranking and the daily
  aggregation are the same with the summary removed from the collection.
\<close>

theorem not_cost_bearing_not_aggregated:
  "((c = (parseJSONLFile_usage f ls)\<lparr>projectName := p\<rparr> \<or>
     c = (parseJSONLFile_costUSD f ls)\<lparr>projectName := p\<rparr>) \<and> messageCount c = 0 \<longrightarrow>
      c \<notin> set (conversationsWithCosts convs) \<and> \<not> in_daily_bucket convs c) \<and>
   (\<not> js_gt (totalCost c) (Num 0) \<longrightarrow>
      c \<notin> set (conversationsWithCosts convs) \<and>
      conversationsWithCosts (filter (\<lambda>x. x \<noteq> c) convs) = conversationsWithCosts convs) \<and>
   (\<not> js_gt (totalCost c) (Num 0) \<or> startTime c = None \<longrightarrow>
      \<not> in_daily_bucket convs c \<and>
      aggregateDailyCosts (filter (\<lambda>x. x \<noteq> c) convs) = aggregateDailyCosts convs)"
proof (intro conjI impI)
  assume a: "(c = (parseJSONLFile_usage f ls)\<lparr>projectName := p\<rparr> \<or>
     c = (parseJSONLFile_costUSD f ls)\<lparr>projectName := p\<rparr>) \<and> messageCount c = 0"
  then have "totalCost c = Num 0" using zero_turn_summary by blast
  then have np: "\<not> js_gt (totalCost c) (Num 0)" by (simp add: js_gt_def)
  then show "c \<notin> set (conversationsWithCosts convs)" by (simp add: ranked_iff)
  from np show "\<not> in_daily_bucket convs c"
    by (simp add: in_daily_bucket_iff cost_bearing_with_start_def)
next
  assume "\<not> js_gt (totalCost c) (Num 0)"
  then show "c \<notin> set (conversationsWithCosts convs)"
    and "conversationsWithCosts (filter (\<lambda>x. x \<noteq> c) convs) = conversationsWithCosts convs"
    by (simp_all add: ranked_iff remove_unranked)
next
  assume "\<not> js_gt (totalCost c) (Num 0) \<or> startTime c = None"
  then have "\<not> cost_bearing_with_start c" by (rule not_cost_bearing)
  then show "\<not> in_daily_bucket convs c"
    and "aggregateDailyCosts (filter (\<lambda>x. x \<noteq> c) convs) = aggregateDailyCosts convs"
    by (simp_all add: in_daily_bucket_iff remove_unaggregated)
qed

text \<open>
  C10. The two retention policies of the scanners agree at the aggregator: in a
  collection where every zero-turn summary has zero cost, the daily aggregation, the
  ranking and the report data computed from the whole collection are those computed
  from the collection without its zero-turn summaries
  (\<open>if (conversation.messageCount > 0)\<close> at scan time).
\<close>

theorem retention_policies_agree:
  assumes "\<forall>c \<in> set convs. messageCount c = 0 \<longrightarrow> totalCost c = Num 0"
  shows "aggregateDailyCosts (filter (\<lambda>c. 0 < messageCount c) convs) = aggregateDailyCosts convs \<and>
    conversationsWithCosts (filter (\<lambda>c. 0 < messageCount c) convs) = conversationsWithCosts convs \<and>
    createHTMLReport tza today (filter (\<lambda>c. 0 < messageCount c) convs) =
      createHTMLReport tza today convs"
proof -
  have np: "\<not> js_gt (totalCost c) (Num 0)" if "c \<in> set convs" "\<not> 0 < messageCount c" for c
    using assms that by (auto simp: js_gt_def)
  have agg: "aggregateDailyCosts (filter (\<lambda>c. 0 < messageCount c) convs) = aggregateDailyCosts convs"
    by (rule aggregateDailyCosts_filter) (simp add: np cost_bearing_with_start_def)
  have rank: "conversationsWithCosts (filter (\<lambda>c. 0 < messageCount c) convs) =
      conversationsWithCosts convs"
    by (rule conversationsWithCosts_filter) (simp add: np)
  from agg rank show ?thesis by (simp only: createHTMLReport_def simp_thms)
qed


lemmas aggregator_defs =
  aggregateDailyCosts_def js_sort_def localeCompare_def js_gt_def msPerDay_def
  add_conversation_def conversationsWithCosts_def by_cost_descending_def js_sub_def

lemma zero_turn_session_value:
  "zero_turn_session =
     \<lparr>conversationId = ''z'', conversationName = [], conversationTitle = ''hi'',
      totalCost = Num 0, messageCount = 0, startTime = None, endTime = None,
      duration = Num 0, projectName = Some ''project''\<rparr>"
  by (simp add: zero_turn_session_def parser_defs example_defs)

lemma aggregate_example:
  "aggregateDailyCosts [session_a, zero_turn_session, session_b, session_c] =
   Inr [\<lparr>date = 19801, totalCost_d = Num 3, conversationCount = 1, conversations = [session_b]\<rparr>,
        \<lparr>date = 19802, totalCost_d = Num 8, conversationCount = 2,
         conversations = [session_a, session_c]\<rparr>]"
  by (simp add: aggregator_defs zero_turn_session_value session_a_def session_b_def session_c_def
      conversation_of_def)

lemma ranking_example:
  "conversationsWithCosts [session_a, zero_turn_session, session_b, session_c] =
   [session_c, session_a, session_b]"
  by (simp add: aggregator_defs zero_turn_session_value session_a_def session_b_def session_c_def
      conversation_of_def)


text \<open>
  In a collection of four, the summary of a file without turns is neither ranked nor
  in a bucket, and a session with a cost is both.
\<close>

theorem not_cost_bearing_not_aggregated_witness:
  "messageCount zero_turn_session = 0 \<and>
   zero_turn_session \<notin> set (conversationsWithCosts [session_a, zero_turn_session, session_b, session_c]) \<and>
   \<not> in_daily_bucket [session_a, zero_turn_session, session_b, session_c] zero_turn_session \<and>
   session_a \<in> set (conversationsWithCosts [session_a, zero_turn_session, session_b, session_c]) \<and>
   in_daily_bucket [session_a, zero_turn_session, session_b, session_c] session_a"
proof -
  have z: "zero_turn_session =
      (parseJSONLFile_usage ''z.jsonl'' [Parsed (user_message ''hi'')])\<lparr>projectName := Some ''project''\<rparr>"
    by (simp only: zero_turn_session_def)
  have m: "messageCount zero_turn_session = 0"
    by (simp add: zero_turn_session_value)
  from z m
    not_cost_bearing_not_aggregated [where c = zero_turn_session and f = "''z.jsonl''"
      and ls = "[Parsed (user_message ''hi'')]" and p = "Some ''project''"
      and convs = "[session_a, zero_turn_session, session_b, session_c]"]
  have "zero_turn_session \<notin> set (conversationsWithCosts [session_a, zero_turn_session, session_b, session_c]) \<and>
   \<not> in_daily_bucket [session_a, zero_turn_session, session_b, session_c] zero_turn_session"
    by blast
  moreover have "session_a \<in> set (conversationsWithCosts [session_a, zero_turn_session, session_b, session_c])"
    by (simp add: ranking_example)
  moreover have "in_daily_bucket [session_a, zero_turn_session, session_b, session_c] session_a"
    by (simp add: in_daily_bucket_def aggregate_example)
  ultimately show ?thesis using m by simp
qed

text \<open>The collection of four sessions, with and without its zero-turn summary.\<close>

theorem retention_policies_agree_witness:
  "filter (\<lambda>c. 0 < messageCount c) [session_a, zero_turn_session, session_b, session_c] =
     [session_a, session_b, session_c] \<and>
   aggregateDailyCosts [session_a, session_b, session_c] =
     aggregateDailyCosts [session_a, zero_turn_session, session_b, session_c] \<and>
   conversationsWithCosts [session_a, session_b, session_c] = [session_c, session_a, session_b]"
proof -
  have f: "filter (\<lambda>c. 0 < messageCount c) [session_a, zero_turn_session, session_b, session_c] =
     [session_a, session_b, session_c]"
    by (simp add: zero_turn_session_value session_a_def session_b_def session_c_def
        conversation_of_def)
  have h: "\<forall>c \<in> set [session_a, zero_turn_session, session_b, session_c].
      messageCount c = 0 \<longrightarrow> totalCost c = Num 0"
    by (simp add: zero_turn_session_value session_a_def session_b_def session_c_def
        conversation_of_def)
  from retention_policies_agree [OF h] f ranking_example show ?thesis by simp
qed

section \<open>Ranking\<close>

lemma cost_order_total:
  assumes "js_gt (totalCost a) (Num 0)" "js_gt (totalCost b) (Num 0)"
    and "\<not> keeps_first by_cost_descending a b"
  shows "keeps_first by_cost_descending b a"
  using assms positive_cases [OF assms(1)] positive_cases [OF assms(2)]
  by (auto simp: keeps_first_def by_cost_descending_def js_sub_def js_gt_def)

lemma cost_order_trans:
  assumes "js_gt (totalCost a) (Num 0)" "js_gt (totalCost b) (Num 0)" "js_gt (totalCost c) (Num 0)"
    and "keeps_first by_cost_descending a b" "keeps_first by_cost_descending b c"
  shows "keeps_first by_cost_descending a c"
  using assms positive_cases [OF assms(1)] positive_cases [OF assms(2)] positive_cases [OF assms(3)]
  by (auto simp: keeps_first_def by_cost_descending_def js_sub_def js_gt_def)

lemma ranking_sorted:
  "sorted_wrt (\<lambda>a b. js_gt (totalCost a) (totalCost b) \<or> totalCost a = totalCost b)
     (conversationsWithCosts convs)"
proof -
  let ?pos = "filter (\<lambda>c. js_gt (totalCost c) (Num 0)) convs"
  have s: "sorted_wrt (keeps_first by_cost_descending) (js_sort by_cost_descending ?pos)"
  proof (rule sorted_js_sort)
    fix x y assume "x \<in> set ?pos" "y \<in> set ?pos" "\<not> keeps_first by_cost_descending x y"
    then show "keeps_first by_cost_descending y x"
      by (intro cost_order_total [of x y]) simp_all
  next
    fix x y z assume "x \<in> set ?pos" "y \<in> set ?pos" "z \<in> set ?pos"
      "keeps_first by_cost_descending x y" "keeps_first by_cost_descending y z"
    then show "keeps_first by_cost_descending x z"
      by (intro cost_order_trans [of x y z]) simp_all
  qed
  have "sorted_wrt (\<lambda>a b. js_gt (totalCost a) (totalCost b) \<or> totalCost a = totalCost b)
     (js_sort by_cost_descending ?pos)"
  proof (rule sorted_wrt_mono_rel [OF _ s])
    fix x y assume "x \<in> set (js_sort by_cost_descending ?pos)"
      "y \<in> set (js_sort by_cost_descending ?pos)" "keeps_first by_cost_descending x y"
    then show "js_gt (totalCost x) (totalCost y) \<or> totalCost x = totalCost y"
      using keeps_first_cost [of x y] by (simp add: set_js_sort)
  qed
  then show ?thesis by (simp only: conversationsWithCosts_def)
qed

text \<open>
  C4. The ranking holds exactly the summaries with a strictly positive cost, is sorted
  descending by cost, and is stable: the entries of any one cost stand in the order
  they have in the collection. The console's top five is its prefix.
\<close>

theorem ranking_stable_descending:
  "mset (conversationsWithCosts convs) = mset (filter (\<lambda>c. js_gt (totalCost c) (Num 0)) convs) \<and>
   sorted_wrt (\<lambda>a b. js_gt (totalCost a) (totalCost b) \<or> totalCost a = totalCost b)
     (conversationsWithCosts convs) \<and>
   filter (\<lambda>c. totalCost c = v) (conversationsWithCosts convs) =
     filter (\<lambda>c. totalCost c = v) (filter (\<lambda>c. js_gt (totalCost c) (Num 0)) convs) \<and>
   top5 (displaySummary convs) = take 5 (conversationsWithCosts convs)"
proof (intro conjI)
  show "mset (conversationsWithCosts convs) =
      mset (filter (\<lambda>c. js_gt (totalCost c) (Num 0)) convs)"
    by (simp only: conversationsWithCosts_def mset_js_sort)
  show "sorted_wrt (\<lambda>a b. js_gt (totalCost a) (totalCost b) \<or> totalCost a = totalCost b)
     (conversationsWithCosts convs)"
    by (rule ranking_sorted)
  show "filter (\<lambda>c. totalCost c = v) (conversationsWithCosts convs) =
     filter (\<lambda>c. totalCost c = v) (filter (\<lambda>c. js_gt (totalCost c) (Num 0)) convs)"
    unfolding conversationsWithCosts_def
    by (rule filter_js_sort) (simp add: equal_cost_keeps_first)
  show "top5 (displaySummary convs) = take 5 (conversationsWithCosts convs)"
    by (simp add: displaySummary_def conversationsWithCosts_def Let_def)
qed

text \<open>Two sessions of cost 3 keep their order, whichever comes first.\<close>

theorem ranking_stable_descending_witness:
  "conversationsWithCosts [session_b, session_c, session_a] = [session_c, session_b, session_a] \<and>
   conversationsWithCosts [session_a, session_c, session_b] = [session_c, session_a, session_b] \<and>
   totalCost session_a = totalCost session_b \<and>
   filter (\<lambda>c. totalCost c = Num 3) (conversationsWithCosts [session_b, session_c, session_a]) =
     [session_b, session_a]"
proof -
  have "filter (\<lambda>c. totalCost c = Num 3) (conversationsWithCosts [session_b, session_c, session_a]) =
     filter (\<lambda>c. totalCost c = Num 3)
       (filter (\<lambda>c. js_gt (totalCost c) (Num 0)) [session_b, session_c, session_a])"
    using ranking_stable_descending [of "[session_b, session_c, session_a]" "Num 3"] by blast
  also have "\<dots> = [session_b, session_a]"
    by (simp add: session_a_def session_b_def session_c_def conversation_of_def js_gt_def)
  finally have stable: "filter (\<lambda>c. totalCost c = Num 3)
      (conversationsWithCosts [session_b, session_c, session_a]) = [session_b, session_a]" .
  have "conversationsWithCosts [session_b, session_c, session_a] = [session_c, session_b, session_a]"
    by (simp add: aggregator_defs session_a_def session_b_def session_c_def conversation_of_def)
  moreover
  have "conversationsWithCosts [session_a, session_c, session_b] = [session_c, session_a, session_b]"
    by (simp add: aggregator_defs session_a_def session_b_def session_c_def conversation_of_def)
  moreover have "totalCost session_a = totalCost session_b"
    by (simp add: session_a_def session_b_def conversation_of_def)
  ultimately show ?thesis using stable by simp
qed

section \<open>The last 30 days\<close>

lemma length_last_days: "length (last_days tza today n) = n"
  by (induction n) simp_all

lemma length_getLast30Days: "length (getLast30Days tza today) = 30"
  by (simp add: getLast30Days_def length_last_days)

lemma setDate_back_constant_offset:
  assumes "\<And>t b. tza t b = offset"
  shows "setDate_back tza today i div msPerDay = today div msPerDay - int i"
proof -
  have "setDate_back tza today i = today - int i * msPerDay"
    by (simp add: setDate_back_def UTC_def LocalTime_def assms)
  moreover have "(today - int i * msPerDay) div msPerDay = today div msPerDay - int i"
    by (simp add: msPerDay_def)
  ultimately show ?thesis by simp
qed

lemma last_days_constant_offset:
  assumes "\<And>t b. tza t b = offset"
  shows "last_days tza today n = map (\<lambda>i. today div msPerDay - int i) (rev [0..<n])"
  by (induction n) (simp_all add: setDate_back_constant_offset [OF assms])

text \<open>
  Where the offset of local time from UTC never changes, the days are the UTC date of
  today and of the 29 days before it, ascending.
\<close>

lemma getLast30Days_constant_offset:
  assumes "\<And>t b. tza t b = offset"
  shows "getLast30Days tza today = last_30_utc_days today"
  by (simp only: getLast30Days_def last_30_utc_days_def last_days_constant_offset [OF assms])

lemma dailyCostMap_foldl:
  "foldl (\<lambda>m d. m(date d \<mapsto> d)) m0 ds k = None \<longleftrightarrow> m0 k = None \<and> k \<notin> date ` set ds"
  by (induction ds arbitrary: m0) auto

text \<open>A date without a bucket is filled with cost zero and no conversations.\<close>

lemma fill_day_absent:
  "k \<notin> date ` set dailyData \<Longrightarrow>
   fill_day (dailyCostMap dailyData) k = \<lparr>day = k, cost = Num 0, day_conversations = []\<rparr>"
proof -
  assume "k \<notin> date ` set dailyData"
  then have "dailyCostMap dailyData k = None"
    unfolding dailyCostMap_def by (simp only: dailyCostMap_foldl) simp
  then show ?thesis by (simp add: fill_day_def)
qed

lemma fill_day_day: "day (fill_day m k) = k"
  by (simp add: fill_day_def split: option.splits)

lemma report_days:
  "createHTMLReport tza today convs = Inr r \<Longrightarrow>
   map day (last30DaysData r) = getLast30Days tza today"
  by (auto simp: createHTMLReport_def Let_def fill_day_day comp_def split: sum.splits)

text \<open>
  A session with a cost whose first timestamp could not be read has an invalid start
  date: \<open>toISOString\<close> throws and there is no series at all.
\<close>

lemma report_invalid_date:
  "createHTMLReport tza today [conversation_of ''x'' (Num 1) 1 (Some InvalidDate)] =
   Inl RangeError"
  by (simp add: createHTMLReport_def aggregateDailyCosts_def conversation_of_def js_gt_def
      Let_def)

lemma new_york_days:
  "getLast30Days new_york_2024 1710977400000 =
    [19774, 19775, 19776, 19777, 19778, 19779, 19780, 19781, 19782, 19783, 19784, 19785,
     19786, 19787, 19788, 19789, 19790, 19791, 19792, 19792, 19793, 19794, 19795, 19796,
     19797, 19798, 19799, 19800, 19801, 19802]"
  by code_simp

lemma utc_days:
  "last_30_utc_days 1710977400000 =
    [19773, 19774, 19775, 19776, 19777, 19778, 19779, 19780, 19781, 19782, 19783, 19784, 19785,
     19786, 19787, 19788, 19789, 19790, 19791, 19792, 19793, 19794, 19795, 19796,
     19797, 19798, 19799, 19800, 19801, 19802]"
  by code_simp


text \<open>
  C3. The claim is that the series always covers the UTC date of today and of the 29
  days before it. The series always has 30 entries (\<open>length_getLast30Days\<close>,
  \<open>report_days\<close>), a date without a bucket is filled with cost zero and no
  conversations (\<open>fill_day_absent\<close>), and the dates are the claimed ones where
  the offset of local time never changes (\<open>getLast30Days_constant_offset\<close>). But
  \<open>getLast30Days\<close> steps back by local calendar days and prints UTC dates. In New
  York at 19:30 on 2024-03-20 (23:30 UTC), the days before the start of daylight
  saving time are at 00:30 UTC of the next day: the date 2024-03-10 (day 19792) is
  listed twice and the date 29 days before today, 2024-02-20 (day 19773), is missing.
\<close>

theorem getLast30Days_new_york:
  "getLast30Days new_york_2024 1710977400000 =
    [19774, 19775, 19776, 19777, 19778, 19779, 19780, 19781, 19782, 19783, 19784, 19785,
     19786, 19787, 19788, 19789, 19790, 19791, 19792, 19792, 19793, 19794, 19795, 19796,
     19797, 19798, 19799, 19800, 19801, 19802] \<and>
   last_30_utc_days 1710977400000 =
    [19773, 19774, 19775, 19776, 19777, 19778, 19779, 19780, 19781, 19782, 19783, 19784, 19785,
     19786, 19787, 19788, 19789, 19790, 19791, 19792, 19793, 19794, 19795, 19796,
     19797, 19798, 19799, 19800, 19801, 19802] \<and>
   getLast30Days new_york_2024 1710977400000 \<noteq> last_30_utc_days 1710977400000"
  by (simp add: new_york_days utc_days)

section \<open>The average of the console summary\<close>

lemma average_without_costs:
  assumes "filter (\<lambda>c. js_gt (totalCost c) (Num 0)) convs = []"
  shows "average_cost (displaySummary convs) = NaN"
  by (simp add: displaySummary_def Let_def assms del: filter_empty_conv)

lemma scan_without_turns:
  "analyzeAllConversations_costUSD corpus_without_turns =
     [\<lparr>conversationId = ''z'', conversationName = [], conversationTitle = ''hi'',
       totalCost = Num 0, messageCount = 0, startTime = None, endTime = None,
       duration = Num 0, projectName = Some ''project''\<rparr>]"
  by (simp add: analyzeAllConversations_costUSD_def corpus_without_turns_def parser_defs
      example_defs)

lemma scan_without_tokens:
  "analyzeAllConversations_usage corpus_without_tokens =
     [\<lparr>conversationId = ''u'', conversationName = [],
       conversationTitle = ''Untitled conversation'',
       totalCost = Num 0, messageCount = 1, startTime = None, endTime = None,
       duration = Num 0, projectName = Some ''project''\<rparr>]"
proof -
  have "calculateCost
     (Some \<lparr>input_tokens = Some 0, output_tokens = Some 0,
            cache_creation_input_tokens = None, cache_read_input_tokens = None\<rparr>)
     ''claude-3-5-sonnet-20241022'' = Num 0"
    by (simp add: calculateCost_entry [OF sonnet_3_5] cost_formula_def token_kinds_def)
  then show ?thesis
    by (simp add: analyzeAllConversations_usage_def corpus_without_tokens_def parser_defs
        example_defs Let_def)
qed

text \<open>
  C5. The claim is that the average is guarded when no session bears a cost.
  \<open>displaySummary\<close> divides the total by the number of sessions with a cost without
  a test, and \<open>main\<close> only returns early on an empty collection. With the first
  script a file without an assistant cost, and with the second a file whose assistant
  records cost zero, gives a collection that is not empty and has no session with a
  cost: the summary is printed and its average is \<open>0 / 0\<close>, \<open>NaN\<close>.
\<close>

theorem average_is_NaN:
  "main tza today (analyzeAllConversations_costUSD corpus_without_turns) \<noteq> No_conversations_found \<and>
   average_cost (displaySummary (analyzeAllConversations_costUSD corpus_without_turns)) = NaN \<and>
   main tza today (analyzeAllConversations_usage corpus_without_tokens) \<noteq> No_conversations_found \<and>
   average_cost (displaySummary (analyzeAllConversations_usage corpus_without_tokens)) = NaN"
proof -
  have "average_cost (displaySummary (analyzeAllConversations_costUSD corpus_without_turns)) = NaN"
    by (rule average_without_costs) (simp add: scan_without_turns js_gt_def)
  moreover
  have "average_cost (displaySummary (analyzeAllConversations_usage corpus_without_tokens)) = NaN"
    by (rule average_without_costs) (simp add: scan_without_tokens js_gt_def)
  ultimately show ?thesis
    by (simp add: main_def scan_without_turns scan_without_tokens)
qed

section \<open>The cost of a turn in double precision\<close>

lemma pow2_powi: "pow2 e = 2 powi e"
  by (simp add: pow2_def power_int_def inverse_eq_divide power_one_over)

lemma pow2_pos: "0 < pow2 e"
  by (simp add: pow2_powi)

lemma pow2_Suc: "pow2 (e + 1) = 2 * pow2 e"
  by (simp add: pow2_powi power_int_add)

lemma pow2_pred: "2 * pow2 (e - 1) = pow2 e"
  using pow2_Suc [of "e - 1"] by simp

lemma pow2_mono: "a \<le> b \<Longrightarrow> pow2 a \<le> pow2 b"
  by (simp add: pow2_powi power_int_increasing)

lemma round_even_error: "\<bar>round_even m - m\<bar> \<le> 1 / 2"
  unfolding round_even_def Let_def by (auto; linarith)

lemma round_even_nonneg: "0 \<le> m \<Longrightarrow> 0 \<le> round_even m"
  unfolding round_even_def Let_def by (auto; linarith)

lemma scale_down_invariant:
  "scale_down x e = (m, e') \<Longrightarrow>
   m * pow2 e' = x * pow2 e \<and> m < 2 ^ 53 \<and> (2 ^ 52 \<le> x \<longrightarrow> 2 ^ 52 \<le> m) \<and> (x < 2 ^ 53 \<longrightarrow> m = x)"
proof (induction x e arbitrary: m e' rule: scale_down.induct)
  case (1 x e)
  show ?case
  proof (cases "2 ^ 53 \<le> x")
    case True
    with "1.prems" have "scale_down (x / 2) (e + 1) = (m, e')"
      by (simp add: scale_down.simps [of x e])
    from "1.IH" [OF True this] True show ?thesis
      by (auto simp: pow2_Suc)
  next
    case False
    with "1.prems" show ?thesis by (simp add: scale_down.simps [of x e])
  qed
qed

lemma scale_up_invariant:
  "scale_up x e = (m, e') \<Longrightarrow> 0 < x \<Longrightarrow>
   m * pow2 e' = x * pow2 e \<and> (2 ^ 52 \<le> m \<or> e' \<le> - 1074) \<and> (x < 2 ^ 53 \<longrightarrow> m < 2 ^ 53) \<and>
   (2 ^ 52 \<le> x \<longrightarrow> m = x) \<and> (x \<in> \<int> \<longrightarrow> m \<in> \<int>)"
proof (induction x e arbitrary: m e' rule: scale_up.induct)
  case (1 x e)
  show ?case
  proof (cases "x < 2 ^ 52 \<and> - 1074 < e")
    case True
    with "1.prems" have "scale_up (2 * x) (e - 1) = (m, e')"
      by (simp add: scale_up.simps [of x e])
    from "1.IH" [OF True this] "1.prems"(2) True show ?thesis
      using pow2_pred [of e] by (auto simp: algebra_simps)
  next
    case False
    with "1.prems" show ?thesis by (auto simp add: scale_up.simps [of x e])
  qed
qed


lemma round_even_int: "m \<in> \<int> \<Longrightarrow> round_even m = m"
  by (auto simp: round_even_def Let_def elim!: Ints_cases)

lemma to_double_pos_relative:
  assumes lo: "1 / 2 ^ 1022 \<le> x" and hi: "x \<le> 2 ^ 1023"
  shows "\<exists>r. to_double_pos x = Num r \<and> \<bar>r - x\<bar> \<le> x / 2 ^ 53"
proof -
  have xpos: "0 < x" using lo by (rule less_le_trans [rotated]) simp
  obtain m1 e1 where sd: "scale_down x 0 = (m1, e1)" by (cases "scale_down x 0")
  obtain m e where su: "scale_up m1 e1 = (m, e)" by (cases "scale_up m1 e1")
  from scale_down_invariant [OF sd] have x1: "m1 * pow2 e1 = x" and m1hi: "m1 < 2 ^ 53"
    by (simp_all add: pow2_def)
  have "0 < m1 * pow2 e1" using x1 xpos by simp
  then have m1pos: "0 < m1" using pow2_pos [of e1] by (rule zero_less_mult_pos2)
  from scale_up_invariant [OF su m1pos] x1 m1hi
  have xm: "m * pow2 e = x" and norm: "2 ^ 52 \<le> m \<or> e \<le> - 1074" and mhi: "m < 2 ^ 53"
    by simp_all
  have "0 < m * pow2 e" using xm xpos by simp
  then have mpos: "0 < m" using pow2_pos [of e] by (rule zero_less_mult_pos2)
  have mlo: "2 ^ 52 \<le> m"
  proof (rule ccontr)
    assume n: "\<not> 2 ^ 52 \<le> m"
    with norm have "e \<le> - 1074" by simp
    then have "pow2 e \<le> pow2 (- 1074)" by (rule pow2_mono)
    then have "m * pow2 e \<le> m * pow2 (- 1074)"
      using mpos by (simp add: mult_left_mono)
    also have "\<dots> < 2 ^ 52 * pow2 (- 1074)"
      using n pow2_pos [of "- 1074"] by (simp add: mult_strict_right_mono)
    also have "\<dots> = 1 / 2 ^ 1022" by (simp add: pow2_def)
    finally show False using xm lo by simp
  qed
  let ?r = "round_even m * pow2 e"
  have "\<bar>?r - x\<bar> = \<bar>round_even m - m\<bar> * pow2 e"
    using pow2_pos [of e] by (simp add: xm [symmetric] abs_mult left_diff_distrib [symmetric])
  also have "\<dots> \<le> (1 / 2) * pow2 e"
    using round_even_error [of m] pow2_pos [of e] by (intro mult_right_mono) simp_all
  also have "\<dots> \<le> (m / 2 ^ 53) * pow2 e"
    using mlo pow2_pos [of e] by (intro mult_right_mono) simp_all
  also have "\<dots> = x / 2 ^ 53" by (simp add: xm [symmetric])
  finally have err: "\<bar>?r - x\<bar> \<le> x / 2 ^ 53" .
  then have "?r \<le> x + x / 2 ^ 53" by linarith
  also have "\<dots> \<le> 2 ^ 1023 + 2 ^ 1023 / 2 ^ 53"
    using hi by (intro add_mono divide_right_mono) simp_all
  also have "\<dots> < 2 ^ 1024" by simp
  finally have "\<not> 2 ^ 1024 \<le> ?r" by simp
  then have "to_double_pos x = Num ?r"
    by (simp add: to_double_pos_def sd su Let_def)
  with err show ?thesis by blast
qed

lemma to_double_nat:
  assumes "n < 2 ^ 53"
  shows "to_double (real n) = Num (real n)"
proof (cases "n = 0")
  case True
  then show ?thesis by (simp add: to_double_def)
next
  case False
  then have pos: "0 < real n" by simp
  have small: "real n < 2 ^ 53" using assms by (metis of_nat_less_iff of_nat_numeral of_nat_power)
  obtain m1 e1 where sd: "scale_down (real n) 0 = (m1, e1)" by (cases "scale_down (real n) 0")
  from small have "scale_down (real n) 0 = (real n, 0)"
    by (simp add: scale_down.simps [of "real n" 0])
  obtain m e where su: "scale_up (real n) 0 = (m, e)" by (cases "scale_up (real n) 0")
  from scale_up_invariant [OF su pos] small
  have xm: "m * pow2 e = real n" and int: "m \<in> \<int>" and mhi: "m < 2 ^ 53"
    by (simp_all add: pow2_def)
  have "round_even m * pow2 e = real n" using int xm by (simp add: round_even_int)
  moreover have "real n < 2 ^ 1024" using small by (rule less_trans) simp
  ultimately show ?thesis
    using pos \<open>scale_down (real n) 0 = (real n, 0)\<close> su
    by (simp add: to_double_def to_double_pos_def Let_def)
qed

lemma scale_up_shift:
  "0 < x \<Longrightarrow> 2 ^ 52 \<le> x * 2 ^ k \<Longrightarrow> x * 2 ^ k < 2 ^ 53 \<Longrightarrow> - 1074 \<le> e - int k \<Longrightarrow>
   scale_up x e = (x * 2 ^ k, e - int k)"
proof (induction k arbitrary: x e)
  case 0
  then show ?case by (simp add: scale_up.simps [of x e])
next
  case (Suc k)
  have "x * 2 \<le> x * 2 ^ Suc k" using Suc.prems(1) by simp
  with Suc.prems(3) have "x < 2 ^ 52" by simp
  moreover have "- 1074 < e" using Suc.prems(4) by simp
  ultimately have "scale_up x e = scale_up (2 * x) (e - 1)"
    by (simp add: scale_up.simps [of x e])
  also have "\<dots> = (2 * x * 2 ^ k, e - 1 - int k)"
    using Suc.prems by (intro Suc.IH) (simp_all add: mult.assoc)
  finally show ?case by (simp add: mult.assoc)
qed

text \<open>A positive number below \<open>2^53\<close> that is normal: its double, given its exponent.\<close>

lemma to_double_normal:
  assumes "0 < x" "2 ^ 52 \<le> x * 2 ^ k" "x * 2 ^ k < 2 ^ 53" "k \<le> 1074"
  shows "to_double x = Num (round_even (x * 2 ^ k) / 2 ^ k)"
proof -
  have "x \<le> x * 2 ^ k" using assms(1) by simp
  with assms(3) have small: "x < 2 ^ 53" by simp
  then have sd: "scale_down x 0 = (x, 0)" by (simp add: scale_down.simps [of x 0])
  have "scale_up x 0 = (x * 2 ^ k, 0 - int k)"
    using assms by (intro scale_up_shift) simp_all
  then have su: "scale_up x 0 = (x * 2 ^ k, - int k)" by simp
  have p: "pow2 (- int k) = 1 / 2 ^ k" by (simp add: pow2_def)
  have rpos: "0 \<le> round_even (x * 2 ^ k)"
    using assms(1) by (intro round_even_nonneg) simp
  have "round_even (x * 2 ^ k) \<le> x * 2 ^ k + 1 / 2"
    using round_even_error [of "x * 2 ^ k"] by linarith
  also have "\<dots> < 2 ^ 54" using assms(3) by simp
  finally have r54: "round_even (x * 2 ^ k) < 2 ^ 54" .
  have "round_even (x * 2 ^ k) / 2 ^ k \<le> round_even (x * 2 ^ k) / 1"
    using rpos by (intro divide_left_mono) simp_all
  with r54 have "round_even (x * 2 ^ k) / 2 ^ k < 2 ^ 54" by simp
  moreover have "(2::real) ^ 54 \<le> 2 ^ 1024" by simp
  ultimately have "\<not> 2 ^ 1024 \<le> round_even (x * 2 ^ k) / 2 ^ k" by linarith
  then show ?thesis
    using assms(1) by (simp add: to_double_def to_double_pos_def sd su p Let_def)
qed

lemma double_of_0_8: "to_double (8 / 10) = Num (3602879701896397 / 2 ^ 52)"
  using to_double_normal [of "8 / 10" 53] by (simp add: round_even_def Let_def)


subsection \<open>Propagation of rounding errors\<close>

lemma within_refl: "rounded_within 0 x x"
  by (simp add: rounded_within_def)

lemma within_zero: "rounded_within k 0 r \<Longrightarrow> r = 0"
  by (simp add: rounded_within_def)

lemma within_nonneg: "rounded_within k x r \<Longrightarrow> 0 \<le> x \<Longrightarrow> 0 \<le> r"
  unfolding rounded_within_def
  by (elim conjE, rule order_trans [rotated], assumption) simp

lemma within_mono:
  assumes "rounded_within i x r" "i \<le> j" "0 \<le> x"
  shows "rounded_within j x r"
proof -
  have "(1 - 1 / 2 ^ 53 :: real) ^ j \<le> (1 - 1 / 2 ^ 53) ^ i"
    using assms(2) by (intro power_decreasing) simp_all
  then have "x * (1 - 1 / 2 ^ 53) ^ j \<le> x * (1 - 1 / 2 ^ 53) ^ i"
    using assms(3) by (rule mult_left_mono)
  moreover have "(1 + 1 / 2 ^ 53 :: real) ^ i \<le> (1 + 1 / 2 ^ 53) ^ j"
    using assms(2) by (intro power_increasing) simp_all
  then have "x * (1 + 1 / 2 ^ 53) ^ i \<le> x * (1 + 1 / 2 ^ 53) ^ j"
    using assms(3) by (rule mult_left_mono)
  ultimately show ?thesis
    using assms(1) unfolding rounded_within_def by linarith
qed

lemma within_mult_left:
  assumes "rounded_within k x r" "0 \<le> c"
  shows "rounded_within k (c * x) (c * r)"
  using assms mult_left_mono [of "x * (1 - 1 / 2 ^ 53) ^ k" r c]
    mult_left_mono [of r "x * (1 + 1 / 2 ^ 53) ^ k" c]
  by (simp add: rounded_within_def mult.assoc)

lemma within_divide:
  assumes "rounded_within k x r" "0 < c"
  shows "rounded_within k (x / c) (r / c)"
  using within_mult_left [OF assms(1), of "1 / c"] assms(2) by simp

lemma within_add:
  assumes "rounded_within k x r" "rounded_within k y s"
  shows "rounded_within k (x + y) (r + s)"
  using assms unfolding rounded_within_def by (simp add: distrib_right)

lemma small_powers:
  assumes "k \<le> 6"
  shows "1 / 2 \<le> (1 - 1 / 2 ^ 53 :: real) ^ k" and "(1 + 1 / 2 ^ 53 :: real) ^ k \<le> 2"
proof -
  have "(1 - 1 / 2 ^ 53 :: real) ^ 6 \<le> (1 - 1 / 2 ^ 53) ^ k"
    using assms by (intro power_decreasing) simp_all
  moreover have "1 / 2 \<le> (1 - 1 / 2 ^ 53 :: real) ^ 6" by (simp add: power_divide)
  ultimately show "1 / 2 \<le> (1 - 1 / 2 ^ 53 :: real) ^ k" by linarith
  have "(1 + 1 / 2 ^ 53 :: real) ^ k \<le> (1 + 1 / 2 ^ 53) ^ 6"
    using assms by (intro power_increasing) simp_all
  moreover have "(1 + 1 / 2 ^ 53 :: real) ^ 6 \<le> 2" by (simp add: power_divide)
  ultimately show "(1 + 1 / 2 ^ 53 :: real) ^ k \<le> 2" by linarith
qed

lemma round_step:
  assumes w: "rounded_within k x r" and k: "k \<le> 6" and m: "moderate x"
  shows "\<exists>r'. to_double r = Num r' \<and> rounded_within (Suc k) x r'"
proof (cases "x = 0")
  case True
  with w have "r = 0" by (simp add: within_zero)
  with True show ?thesis by (simp add: to_double_def rounded_within_def)
next
  case False
  with m have lo: "1 / 2 ^ 100 \<le> x" and hi: "x \<le> 2 ^ 100" by (simp_all add: moderate_def)
  have xpos: "0 < x" using lo by (rule less_le_trans [rotated]) simp
  from w have w1: "x * (1 - 1 / 2 ^ 53) ^ k \<le> r" and w2: "r \<le> x * (1 + 1 / 2 ^ 53) ^ k"
    by (simp_all add: rounded_within_def)
  have "x * (1 / 2) \<le> x * (1 - 1 / 2 ^ 53) ^ k"
    using small_powers(1) [OF k] xpos by (intro mult_left_mono) simp_all
  with w1 have rlo: "x / 2 \<le> r" by simp
  have "x * (1 + 1 / 2 ^ 53) ^ k \<le> x * 2"
    using small_powers(2) [OF k] xpos by (intro mult_left_mono) simp_all
  with w2 have rhi: "r \<le> 2 * x" by simp
  have rpos: "0 < r" using rlo xpos by linarith
  have "(1 / 2 ^ 1022 :: real) \<le> 1 / 2 ^ 100 / 2" by simp
  also have "\<dots> \<le> x / 2" using lo by simp
  finally have "1 / 2 ^ 1022 \<le> r" using rlo by linarith
  moreover have "r \<le> 2 ^ 1023"
  proof -
    have "2 * x \<le> 2 * 2 ^ 100" using hi by simp
    also have "\<dots> \<le> (2 ^ 1023 :: real)" by simp
    finally show ?thesis using rhi by linarith
  qed
  ultimately obtain r' where r': "to_double_pos r = Num r'" and e: "\<bar>r' - r\<bar> \<le> r / 2 ^ 53"
    using to_double_pos_relative by blast
  have td: "to_double r = Num r'" using rpos r' by (simp add: to_double_def)
  from e have e1: "r - r / 2 ^ 53 \<le> r'" and e2: "r' \<le> r + r / 2 ^ 53" by linarith+
  have f1: "r * (1 - 1 / 2 ^ 53) = r - r / 2 ^ 53" by (simp add: algebra_simps)
  have f2: "r * (1 + 1 / 2 ^ 53) = r + r / 2 ^ 53" by (simp add: algebra_simps)
  have "x * (1 - 1 / 2 ^ 53) ^ Suc k = (x * (1 - 1 / 2 ^ 53) ^ k) * (1 - 1 / 2 ^ 53)" by simp
  also have "\<dots> \<le> r * (1 - 1 / 2 ^ 53)" using w1 by (intro mult_right_mono) simp_all
  also have "\<dots> \<le> r'" using e1 by (simp only: f1)
  finally have a: "x * (1 - 1 / 2 ^ 53) ^ Suc k \<le> r'" .
  have "r' \<le> r * (1 + 1 / 2 ^ 53)" using e2 by (simp only: f2)
  also have "\<dots> \<le> (x * (1 + 1 / 2 ^ 53) ^ k) * (1 + 1 / 2 ^ 53)"
    using w2 by (intro mult_right_mono) simp_all
  also have "\<dots> = x * (1 + 1 / 2 ^ 53) ^ Suc k" by simp
  finally have b: "r' \<le> x * (1 + 1 / 2 ^ 53) ^ Suc k" .
  from td a b show ?thesis by (auto simp: rounded_within_def)
qed


lemma table_rates:
  "map_of CLAUDE_PRICING k = Some p \<Longrightarrow>
   p = opus_rates \<or> p = sonnet_rates \<or> p = haiku35_rates \<or> p = haiku3_rates"
  by (drule map_of_SomeD) (auto simp: CLAUDE_PRICING_def)

lemma rate_bounds:
  assumes "map_of CLAUDE_PRICING k = Some p"
  shows "3 / 100 \<le> price_per_million p kind \<and> price_per_million p kind \<le> 75"
  using table_rates [OF assms]
  by (cases kind)
    (auto simp: opus_rates_def sonnet_rates_def haiku35_rates_def haiku3_rates_def)

lemma double_of_million: "to_double 1000000 = Num 1000000"
  using to_double_nat [of 1000000] by simp

lemma tokens_double_tokens_of:
  "tokens_double (input_tokens u) = to_double (real (tokens_of u Input_tokens))"
  "tokens_double (output_tokens u) = to_double (real (tokens_of u Output_tokens))"
  "tokens_double (cache_creation_input_tokens u) = to_double (real (tokens_of u Cache_write_tokens))"
  "tokens_double (cache_read_input_tokens u) = to_double (real (tokens_of u Cache_read_tokens))"
  by (simp_all add: tokens_double_def split: option.splits)

text \<open>The cost of one kind of tokens: three roundings (the price, the product, the quotient).\<close>

lemma kind_cost:
  assumes n: "n < 2 ^ 53" and plo: "3 / 100 \<le> p" and phi: "p \<le> 75"
  shows "\<exists>r. rounded (js_div (rounded (js_mul (to_double (real n)) (to_double p)))
                 (to_double 1000000)) = Num r \<and>
             rounded_within 3 (real n * p / 1000000) r"
proof -
  have nn: "to_double (real n) = Num (real n)" using n by (rule to_double_nat)
  have nhi: "real n \<le> 2 ^ 53"
    using n by (metis less_imp_le of_nat_le_iff of_nat_numeral of_nat_power)
  have "moderate p" using plo phi by (simp add: moderate_def)
  with within_refl [of p] obtain q where q: "to_double p = Num q" and wq: "rounded_within 1 p q"
    using round_step [of 0 p p] by auto
  have w1: "rounded_within 1 (real n * p) (real n * q)"
    using wq by (rule within_mult_left) simp
  have m1: "moderate (real n * p)"
  proof (cases "n = 0")
    case True
    then show ?thesis by (simp add: moderate_def)
  next
    case False
    then have "1 \<le> real n" by simp
    then have "1 * (3 / 100) \<le> real n * p" using plo by (intro mult_mono) simp_all
    moreover have "real n * p \<le> 2 ^ 53 * 75" using nhi phi plo by (intro mult_mono) simp_all
    ultimately show ?thesis by (simp add: moderate_def)
  qed
  from round_step [OF w1 _ m1] obtain a where a: "to_double (real n * q) = Num a"
    and wa: "rounded_within 2 (real n * p) a"
    by (auto simp: numeral_2_eq_2)
  have w2: "rounded_within 2 (real n * p / 1000000) (a / 1000000)"
    using wa by (rule within_divide) simp
  have m2: "moderate (real n * p / 1000000)"
  proof (cases "n = 0")
    case True
    then show ?thesis by (simp add: moderate_def)
  next
    case False
    then have "1 \<le> real n" by simp
    then have "1 * (3 / 100) \<le> real n * p" using plo by (intro mult_mono) simp_all
    moreover have "real n * p \<le> 2 ^ 53 * 75" using nhi phi plo by (intro mult_mono) simp_all
    ultimately show ?thesis by (simp add: moderate_def)
  qed
  from round_step [OF w2 _ m2] obtain r where r: "to_double (a / 1000000) = Num r"
    and wr: "rounded_within 3 (real n * p / 1000000) r"
    by (auto simp: numeral_3_eq_3)
  have "rounded (js_div (rounded (js_mul (to_double (real n)) (to_double p)))
          (to_double 1000000)) = Num r"
    by (simp add: nn q a double_of_million r)
  with wr show ?thesis by blast
qed

lemma kind_exact:
  assumes n: "n < 2 ^ 53" and plo: "3 / 100 \<le> p" and phi: "p \<le> 75"
  shows "0 \<le> real n * p / 1000000" and "real n * p / 1000000 \<le> 2 ^ 50"
    and "real n * p / 1000000 = 0 \<or> 1 / 2 ^ 50 \<le> real n * p / 1000000"
proof -
  have nhi: "real n \<le> 2 ^ 53"
    using n by (metis less_imp_le of_nat_le_iff of_nat_numeral of_nat_power)
  show "0 \<le> real n * p / 1000000" using plo by simp
  have "real n * p \<le> 2 ^ 53 * 75" using nhi phi plo by (intro mult_mono) simp_all
  then show "real n * p / 1000000 \<le> 2 ^ 50" by simp
  show "real n * p / 1000000 = 0 \<or> 1 / 2 ^ 50 \<le> real n * p / 1000000"
  proof (cases "n = 0")
    case True
    then show ?thesis by simp
  next
    case False
    then have "1 \<le> real n" by simp
    then have "1 * (3 / 100) \<le> real n * p" using plo by (intro mult_mono) simp_all
    then show ?thesis by simp
  qed
qed

text \<open>One addition: one more rounding.\<close>

lemma add_step:
  assumes wx: "rounded_within k x a" and wy: "rounded_within j y b" and j: "j \<le> k" and k: "k \<le> 6"
    and x0: "0 \<le> x" and y0: "0 \<le> y"
    and xlo: "x = 0 \<or> 1 / 2 ^ 50 \<le> x" and ylo: "y = 0 \<or> 1 / 2 ^ 50 \<le> y"
    and hi: "x + y \<le> 2 ^ 52"
  shows "\<exists>r. rounded (js_add (Num a) (Num b)) = Num r \<and> rounded_within (Suc k) (x + y) r"
proof -
  have "rounded_within k y b" using wy j y0 by (rule within_mono)
  with wx have w: "rounded_within k (x + y) (a + b)" by (rule within_add)
  have "moderate (x + y)"
  proof (cases "x + y = 0")
    case True
    then show ?thesis by (simp add: moderate_def)
  next
    case False
    with x0 y0 xlo ylo have "1 / 2 ^ 50 \<le> x + y" by auto
    moreover have "(1 / 2 ^ 100 :: real) \<le> 1 / 2 ^ 50" by simp
    moreover have "(2 ^ 52 :: real) \<le> 2 ^ 100" by simp
    ultimately show ?thesis using hi by (simp only: moderate_def) linarith
  qed
  from round_step [OF w k this] show ?thesis by simp
qed


lemma within_6_bound:
  assumes "rounded_within 6 x r" "0 \<le> x"
  shows "\<bar>r - x\<bar> \<le> x / 2 ^ 50"
proof -
  from assms(1) have lo: "x * (1 - 1 / 2 ^ 53) ^ 6 \<le> r" and hi: "r \<le> x * (1 + 1 / 2 ^ 53) ^ 6"
    by (simp_all add: rounded_within_def)
  have "(1 + 1 / 2 ^ 53 :: real) ^ 6 \<le> 1 + 1 / 2 ^ 50" by (simp add: power_divide)
  then have "x * (1 + 1 / 2 ^ 53) ^ 6 \<le> x * (1 + 1 / 2 ^ 50)"
    using assms(2) by (rule mult_left_mono)
  with hi have a: "r \<le> x + x / 2 ^ 50" by (simp add: algebra_simps)
  have "1 - 1 / 2 ^ 50 \<le> (1 - 1 / 2 ^ 53 :: real) ^ 6" by (simp add: power_divide)
  then have "x * (1 - 1 / 2 ^ 50) \<le> x * (1 - 1 / 2 ^ 53) ^ 6"
    using assms(2) by (rule mult_left_mono)
  with lo have b: "x - x / 2 ^ 50 \<le> r" by (simp add: algebra_simps)
  from a b show ?thesis by linarith
qed

lemma sum_lower:
  fixes x y :: real
  assumes "0 \<le> x" "0 \<le> y" "x = 0 \<or> l \<le> x" "y = 0 \<or> l \<le> y"
  shows "x + y = 0 \<or> l \<le> x + y"
  using assms by auto

text \<open>
  C1, as amended. For a usage record whose token counts are below \<open>2^53\<close>, a missing
  count being zero, and a model identifier that is a key of the pricing table, the cost
  computed in double precision is a finite number within a relative error of
  \<open>2^-50\<close> of the sum over the four token kinds of token count times price per
  million, divided by 1,000,000.
\<close>

theorem calculateCost_double_error:
  assumes key: "map_of CLAUDE_PRICING model_id = Some p"
    and tokens: "\<forall>k \<in> set token_kinds. tokens_of u k < 2 ^ 53"
  shows "\<exists>r. calculateCost_double (Some u) model_id = Num r \<and>
             \<bar>r - cost_formula u p\<bar> \<le> cost_formula u p / 2 ^ 50"
proof -
  define x where "x k = real (tokens_of u k) * price_per_million p k / 1000000" for k
  define x1 x2 x3 x4 where "x1 = x Input_tokens" and "x2 = x Output_tokens"
    and "x3 = x Cache_write_tokens" and "x4 = x Cache_read_tokens"
  have pr: "pricing_or_default model_id = Entry p" using key by (rule own_entry)
  have n: "tokens_of u k < 2 ^ 53" for k
    using tokens by (cases k) (simp_all add: token_kinds_def)
  note rb = rate_bounds [OF key]
  have x0: "0 \<le> x k" and xhi: "x k \<le> 2 ^ 50" and xlo: "x k = 0 \<or> 1 / 2 ^ 50 \<le> x k" for k
    unfolding x_def
    using kind_exact [OF n [of k], of "price_per_million p k"] rb [of k] by blast+
  have kc: "\<exists>r. rounded (js_div (rounded (js_mul (to_double (real (tokens_of u k)))
                (to_double (price_per_million p k)))) (to_double 1000000)) = Num r \<and>
             rounded_within 3 (x k) r" for k
    unfolding x_def
    using kind_cost [OF n [of k], of "price_per_million p k"] rb [of k] by blast
  from kc [of Input_tokens] obtain c1 where c1:
    "rounded (js_div (rounded (js_mul (tokens_double (input_tokens u)) (to_double (input p))))
       (to_double 1000000)) = Num c1" and w1: "rounded_within 3 x1 c1"
    by (auto simp: tokens_double_tokens_of x1_def)
  from kc [of Output_tokens] obtain c2 where c2:
    "rounded (js_div (rounded (js_mul (tokens_double (output_tokens u)) (to_double (output p))))
       (to_double 1000000)) = Num c2" and w2: "rounded_within 3 x2 c2"
    by (auto simp: tokens_double_tokens_of x2_def)
  from kc [of Cache_write_tokens] obtain c3 where c3:
    "rounded (js_div (rounded (js_mul (tokens_double (cache_creation_input_tokens u))
       (to_double (cache_write p)))) (to_double 1000000)) = Num c3"
    and w3: "rounded_within 3 x3 c3"
    by (auto simp: tokens_double_tokens_of x3_def)
  from kc [of Cache_read_tokens] obtain c4 where c4:
    "rounded (js_div (rounded (js_mul (tokens_double (cache_read_input_tokens u))
       (to_double (cache_read p)))) (to_double 1000000)) = Num c4"
    and w4: "rounded_within 3 x4 c4"
    by (auto simp: tokens_double_tokens_of x4_def)
  have p1: "0 \<le> x1" and p2: "0 \<le> x2" and p3: "0 \<le> x3" and p4: "0 \<le> x4"
    unfolding x1_def x2_def x3_def x4_def by (rule x0)+
  have h1: "x1 \<le> 2 ^ 50" and h2: "x2 \<le> 2 ^ 50" and h3: "x3 \<le> 2 ^ 50" and h4: "x4 \<le> 2 ^ 50"
    unfolding x1_def x2_def x3_def x4_def by (rule xhi)+
  have l1: "x1 = 0 \<or> 1 / 2 ^ 50 \<le> x1" and l2: "x2 = 0 \<or> 1 / 2 ^ 50 \<le> x2"
    and l3: "x3 = 0 \<or> 1 / 2 ^ 50 \<le> x3" and l4: "x4 = 0 \<or> 1 / 2 ^ 50 \<le> x4"
    unfolding x1_def x2_def x3_def x4_def by (rule xlo)+
  have h12: "x1 + x2 \<le> 2 ^ 52" using h1 h2 by simp
  have k34: "(3::nat) \<le> 3" "(3::nat) \<le> 4" "(3::nat) \<le> 5" "(3::nat) \<le> 6" "(4::nat) \<le> 6"
    "(5::nat) \<le> 6" by simp_all
  from add_step [OF w1 w2 k34(1) k34(4) p1 p2 l1 l2 h12]
  obtain s1 where s1: "rounded (js_add (Num c1) (Num c2)) = Num s1"
    and v1: "rounded_within (Suc 3) (x1 + x2) s1"
    by blast
  have p12: "0 \<le> x1 + x2" using p1 p2 by simp
  have l12: "x1 + x2 = 0 \<or> 1 / 2 ^ 50 \<le> x1 + x2" using p1 p2 l1 l2 by (rule sum_lower)
  have h123: "x1 + x2 + x3 \<le> 2 ^ 52" using h1 h2 h3 by simp
  have v1': "rounded_within 4 (x1 + x2) s1" using v1 by (simp add: eval_nat_numeral)
  from add_step [OF v1' w3 k34(2) k34(5) p12 p3 l12 l3 h123]
  obtain s2 where s2: "rounded (js_add (Num s1) (Num c3)) = Num s2"
    and v2: "rounded_within (Suc 4) (x1 + x2 + x3) s2"
    by blast
  have p123: "0 \<le> x1 + x2 + x3" using p12 p3 by simp
  have l123: "x1 + x2 + x3 = 0 \<or> 1 / 2 ^ 50 \<le> x1 + x2 + x3"
    using p12 p3 l12 l3 by (rule sum_lower)
  have h1234: "x1 + x2 + x3 + x4 \<le> 2 ^ 52" using h1 h2 h3 h4 by simp
  have v2': "rounded_within 5 (x1 + x2 + x3) s2" using v2 by (simp add: eval_nat_numeral)
  from add_step [OF v2' w4 k34(3) k34(6) p123 p4 l123 l4 h1234]
  obtain s3 where s3: "rounded (js_add (Num s2) (Num c4)) = Num s3"
    and v3: "rounded_within (Suc 5) (x1 + x2 + x3 + x4) s3"
    by blast
  have v3': "rounded_within 6 (x1 + x2 + x3 + x4) s3" using v3 by (simp add: eval_nat_numeral)
  have p1234: "0 \<le> x1 + x2 + x3 + x4" using p123 p4 by simp
  have sum: "cost_formula u p = x1 + x2 + x3 + x4"
    by (simp add: cost_formula_def token_kinds_def x1_def x2_def x3_def x4_def x_def)
  have t1: "to_double (c1 + c2) = Num s1" using s1 by simp
  have t2: "to_double (s1 + c3) = Num s2" using s2 by simp
  have t3: "to_double (s2 + c4) = Num s3" using s3 by simp
  have "calculateCost_double (Some u) model_id = Num s3"
    by (simp add: calculateCost_double_def pr Let_def c1 c2 c3 c4 t1 t2 t3)
  moreover have "\<bar>s3 - cost_formula u p\<bar> \<le> cost_formula u p / 2 ^ 50"
    unfolding sum using v3' p1234 by (rule within_6_bound)
  ultimately show ?thesis by blast
qed


subsection \<open>Concrete costs\<close>

lemma double_of_zero: "to_double 0 = Num 0"
  by (simp add: to_double_def)

lemma zero_kind:
  assumes "3 / 100 \<le> p" "p \<le> 75"
  shows "rounded (js_div (rounded (js_mul (Num 0) (to_double p))) (Num 1000000)) = Num 0"
proof -
  from kind_cost [of 0 p] assms obtain r where
    r: "rounded (js_div (rounded (js_mul (to_double 0) (to_double p))) (to_double 1000000)) = Num r"
    and w: "rounded_within 3 0 r"
    by auto
  from w have "r = 0" by (rule within_zero)
  with r show ?thesis by (simp add: double_of_zero double_of_million)
qed

lemma haiku_3_5: "pricing_or_default ''claude-3-5-haiku-20241022'' = Entry haiku35_rates"
  by (rule own_entry) (simp add: CLAUDE_PRICING_def)

lemma double_of_haiku_input:
  "to_double (input haiku35_rates) = Num (3602879701896397 / 4503599627370496)"
  using to_double_normal [of "input haiku35_rates" 53]
  by (simp add: haiku35_rates_def round_even_def Let_def)

lemma double_of_haiku_input_again:
  "to_double (3602879701896397 / 4503599627370496) = Num (3602879701896397 / 4503599627370496)"
  using to_double_normal [of "3602879701896397 / 4503599627370496" 53]
  by (simp add: round_even_def Let_def)

lemma double_of_haiku_quotient:
  "to_double (3602879701896397 / 4503599627370496000000) =
   Num (7555786372591433 / 9444732965739290427392)"
  using to_double_normal [of "3602879701896397 / 4503599627370496000000" 73]
  by (simp add: round_even_def Let_def)

lemma double_of_haiku_cost:
  "to_double (7555786372591433 / 9444732965739290427392) =
   Num (7555786372591433 / 9444732965739290427392)"
  using to_double_normal [of "7555786372591433 / 9444732965739290427392" 73]
  by (simp add: round_even_def Let_def)

lemma double_of_exact_haiku_cost:
  "to_double (8 / 10 ^ 7) = Num (7555786372591432 / 9444732965739290427392)"
  using to_double_normal [of "8 / 10 ^ 7" 73]
  by (simp add: round_even_def Let_def)

text \<open>
  C1 as claimed fails: the cost is not always the exact sum. One input token of
  \<open>claude-3-5-haiku-20241022\<close> costs \<open>0.8 / 1000000\<close>, and the code computes
  \<open>7555786372591433 / 2^73\<close> (printed 8.000000000000001e-7), which is neither that
  sum nor the double nearest to it (\<open>7555786372591432 / 2^73\<close>, printed 8e-7): the
  literal \<open>0.8\<close> is rounded up before the division.
\<close>

theorem cost_formula_exact_counterexample:
  "calculateCost_double
     (Some \<lparr>input_tokens = Some 1, output_tokens = None, cache_creation_input_tokens = None,
            cache_read_input_tokens = None\<rparr>)
     ''claude-3-5-haiku-20241022'' = Num (7555786372591433 / 2 ^ 73) \<and>
   cost_formula
     \<lparr>input_tokens = Some 1, output_tokens = None, cache_creation_input_tokens = None,
      cache_read_input_tokens = None\<rparr> haiku35_rates = 8 / 10 ^ 7 \<and>
   (7555786372591433 / 2 ^ 73 :: real) \<noteq> 8 / 10 ^ 7 \<and>
   to_double (8 / 10 ^ 7) = Num (7555786372591432 / 2 ^ 73)"
proof -
  have one: "to_double 1 = Num 1" using to_double_nat [of 1] by simp
  have z1: "rounded (js_div (rounded (js_mul (Num 0) (to_double (output haiku35_rates))))
      (Num 1000000)) = Num 0"
    by (rule zero_kind) (simp_all add: haiku35_rates_def)
  have z2: "rounded (js_div (rounded (js_mul (Num 0) (to_double (cache_write haiku35_rates))))
      (Num 1000000)) = Num 0"
    by (rule zero_kind) (simp_all add: haiku35_rates_def)
  have z3: "rounded (js_div (rounded (js_mul (Num 0) (to_double (cache_read haiku35_rates))))
      (Num 1000000)) = Num 0"
    by (rule zero_kind) (simp_all add: haiku35_rates_def)
  have c: "rounded (js_div (rounded (js_mul (Num 1) (to_double (input haiku35_rates))))
      (Num 1000000)) = Num (7555786372591433 / 9444732965739290427392)"
    by (simp add: double_of_haiku_input double_of_haiku_input_again double_of_million
        double_of_haiku_quotient)
  have "calculateCost_double
     (Some \<lparr>input_tokens = Some 1, output_tokens = None, cache_creation_input_tokens = None,
            cache_read_input_tokens = None\<rparr>)
     ''claude-3-5-haiku-20241022'' = Num (7555786372591433 / 9444732965739290427392)"
    by (simp add: calculateCost_double_def haiku_3_5 Let_def tokens_double_def one double_of_zero
        double_of_million z1 z2 z3 c double_of_haiku_cost)
  then have A: "calculateCost_double
     (Some \<lparr>input_tokens = Some 1, output_tokens = None, cache_creation_input_tokens = None,
            cache_read_input_tokens = None\<rparr>)
     ''claude-3-5-haiku-20241022'' = Num (7555786372591433 / 2 ^ 73)"
    by simp
  have B: "cost_formula
     \<lparr>input_tokens = Some 1, output_tokens = None, cache_creation_input_tokens = None,
      cache_read_input_tokens = None\<rparr> haiku35_rates = 8 / 10 ^ 7"
    by (simp add: cost_formula_def token_kinds_def haiku35_rates_def)
  have C: "(7555786372591433 / 2 ^ 73 :: real) \<noteq> 8 / 10 ^ 7"
    by simp
  have D: "to_double (8 / 10 ^ 7) = Num (7555786372591432 / 2 ^ 73)"
    using double_of_exact_haiku_cost by simp
  from A B C D show ?thesis by (intro conjI)
qed

lemma double_of_three: "to_double 3 = Num 3"
  using to_double_nat [of 3] by simp

lemma double_of_three_million: "to_double 3000000 = Num 3000000"
  using to_double_nat [of 3000000] by simp

text \<open>
  The example of C1: 1,000,000 input tokens at 3.00 per million and no other tokens
  cost exactly 3, no operation rounds.
\<close>

theorem calculateCost_double_error_witness:
  "calculateCost_double
     (Some \<lparr>input_tokens = Some 1000000, output_tokens = Some 0,
            cache_creation_input_tokens = Some 0, cache_read_input_tokens = Some 0\<rparr>)
     ''claude-3-5-sonnet-20241022'' = Num 3 \<and>
   cost_formula
     \<lparr>input_tokens = Some 1000000, output_tokens = Some 0,
      cache_creation_input_tokens = Some 0, cache_read_input_tokens = Some 0\<rparr> sonnet_rates = 3"
proof -
  let ?u = "\<lparr>input_tokens = Some 1000000, output_tokens = Some 0,
      cache_creation_input_tokens = Some 0, cache_read_input_tokens = Some 0\<rparr>"
  have k: "map_of CLAUDE_PRICING ''claude-3-5-sonnet-20241022'' = Some sonnet_rates"
    by (simp add: CLAUDE_PRICING_def)
  have t: "\<forall>k \<in> set token_kinds. tokens_of ?u k < 2 ^ 53"
    by (simp add: token_kinds_def)
  have f: "cost_formula ?u sonnet_rates = 3"
    by (simp add: cost_formula_def token_kinds_def sonnet_rates_def)
  have z1: "rounded (js_div (rounded (js_mul (Num 0) (to_double (output sonnet_rates))))
      (Num 1000000)) = Num 0"
    by (rule zero_kind) (simp_all add: sonnet_rates_def)
  have z2: "rounded (js_div (rounded (js_mul (Num 0) (to_double (cache_write sonnet_rates))))
      (Num 1000000)) = Num 0"
    by (rule zero_kind) (simp_all add: sonnet_rates_def)
  have z3: "rounded (js_div (rounded (js_mul (Num 0) (to_double (cache_read sonnet_rates))))
      (Num 1000000)) = Num 0"
    by (rule zero_kind) (simp_all add: sonnet_rates_def)
  have i: "input sonnet_rates = 3" by (simp add: sonnet_rates_def)
  have c: "rounded (js_div (rounded (js_mul (Num 1000000) (to_double (input sonnet_rates))))
      (Num 1000000)) = Num 3"
    by (simp add: i double_of_three double_of_three_million double_of_million)
  have e: "calculateCost_double (Some ?u) ''claude-3-5-sonnet-20241022'' = Num 3"
    by (simp add: calculateCost_double_def sonnet_3_5 Let_def tokens_double_def double_of_zero
        double_of_million z1 z2 z3 c double_of_three)
  from calculateCost_double_error [OF k t] e f show ?thesis by simp
qed

end
